theory Spec2Isabelle
  imports Complex_Main "HOL-Library.AList" "HOL-Library.Multiset"
begin

section \<open>Bill splitting: the validator and the calculation engine\<close>

text \<open>
  The theory embeds \<^verbatim>\<open>SplitValidator\<close> (validators/split.validator.ts) and
  \<^verbatim>\<open>SplitCalculationService\<close> (split-calculation.service.ts) together with the
  DTO classes of dto/calculate-split.dto.ts.

  Numbers: a TypeScript \<^verbatim>\<open>number\<close> holding an amount is modelled as an exact
  real number (\<^typ>\<open>real\<close>).  Every finite double is one, and the model computes
  \<open>+\<close>, \<open>-\<close>, \<open>*\<close>, \<open>/\<close> without the binary rounding error of IEEE arithmetic;
  \<^verbatim>\<open>NaN\<close> and the infinities are outside the model.  An optional field
  (\<^verbatim>\<open>tax?: number\<close>) is an \<open>option\<close>; \<^verbatim>\<open>undefined\<close> is \<open>None\<close>.
  A thrown \<^verbatim>\<open>BadRequestException\<close> is the left summand of a sum type.

  Where the two arithmetics part: the program rounds every product, quotient and sum to a
  double, so a value that is an exact half-cent in one arithmetic need not be one in the
  other, and the cent chosen there can differ.  For a share of 2.25 of a subtotal of 100 and
  a tip (or tax) of 10 the program computes \<^verbatim>\<open>2.25 / 100\<close> first and returns 0.22, where
  the exact \<open>10 * 2.25 / 100 = 0.225\<close> rounds to 0.23; \<^verbatim>\<open>round(2.675)\<close> is 2.68 in the
  program because the double product \<^verbatim>\<open>2.675 * 100\<close> is 267.5.  A sum of doubles also
  depends on the order of its summands.  The theorems below that compare an amount with an
  exact quotient therefore allow for the rounding error of the double operations (a term
  of the form \<open>(|q| + 1) / 2 ^ 50\<close>), the theorem about the percentage tolerance leaves a
  margin of \<open>1 / 10 ^ 9\<close> around the boundary, and the theorem about reordering does not
  speak of the sum of the totals.
\<close>

subsection \<open>Data model (dto/calculate-split.dto.ts)\<close>

datatype SplitType = EQUAL | ITEMIZED | PERCENTAGE | CUSTOM

datatype TipDistributionType = TIP_EQUAL | TIP_PROPORTIONAL

record ItemDto =
  item_name :: string
  item_price :: real
  item_participantIds :: "string list"

record PercentageSplitDto =
  pct_participantId :: string
  percentage :: real

record CustomSplitDto =
  custom_participantId :: string
  amount :: real

record CalculateSplitDto =
  splitType :: SplitType
  subtotal :: real
  tax :: "real option"
  tip :: "real option"
  tipDistribution :: "TipDistributionType option"
  participantIds :: "string list"
  items :: "ItemDto list option"
  percentages :: "PercentageSplitDto list option"
  customAmounts :: "CustomSplitDto list option"

text \<open>The fields of a share carry the prefix \<open>share_\<close>, since \<open>subtotal\<close>, \<open>tax\<close>,
  \<open>tip\<close> and \<open>items\<close> are already fields of the request.\<close>

record ParticipantShareDto =
  share_participantId :: string
  share_subtotal :: real
  share_tax :: real
  share_tip :: real
  share_total :: real
  share_items :: "string list option"

record SplitCalculationResultDto =
  res_splitType :: SplitType
  originalSubtotal :: real
  originalTax :: real
  originalTip :: real
  grandTotal :: real
  shares :: "ParticipantShareDto list"
  roundingAdjustment :: real

text \<open>One constructor for each \<^verbatim>\<open>throw new BadRequestException(...)\<close> of the
  validator; the arguments are the names the message interpolates.\<close>

datatype ValidationError =
    NoParticipants
  | DuplicateParticipantIds
  | NegativeSubtotal
  | NegativeTax
  | NegativeTip
  | TotalNotPositive
  | EqualExtraPayload
  | ItemizedNoItems
  | ItemizedExtraPayload
  | ItemNoName nat
  | ItemInvalidPrice string
  | ItemNoParticipants string
  | ItemForeignParticipant string string
  | ItemDuplicateParticipants string
  | ItemsSumMismatch
  | PercentageMissingConfig
  | PercentageExtraPayload
  | PercentageForeignParticipant string
  | PercentageDuplicateEntry string
  | PercentageOutOfRange string
  | PercentageTotalMismatch
  | PercentageMissingParticipant string
  | CustomMissingConfig
  | CustomExtraPayload
  | CustomForeignParticipant string
  | CustomDuplicateEntry string
  | CustomNegativeAmount string
  | CustomSumMismatch
  | CustomMissingParticipant string
  | ResultTotalMismatch
  | ResultAdjustmentTooLarge

subsection \<open>JavaScript helpers\<close>

text \<open>\<^verbatim>\<open>x || 0\<close> on an optional number.\<close>

definition orZero :: "real option \<Rightarrow> real" where
  "orZero x = (case x of None \<Rightarrow> 0 | Some v \<Rightarrow> v)"

text \<open>\<^verbatim>\<open>Math.round\<close>: the nearest integer, a tie going to the larger integer.\<close>

definition Math_round :: "real \<Rightarrow> int" where
  "Math_round x = \<lfloor>x + 1 / 2\<rfloor>"

text \<open>\<^verbatim>\<open>xs.reduce((sum, x) => sum + f(x), 0)\<close>.\<close>

definition reduce_sum :: "('a \<Rightarrow> real) \<Rightarrow> 'a list \<Rightarrow> real" where
  "reduce_sum f xs = foldl (\<lambda>sum x. sum + f x) 0 xs"

text \<open>A \<^verbatim>\<open>Map\<close> is an association list in insertion order; \<^verbatim>\<open>set\<close> on a
  key that is present keeps its position (\<^const>\<open>AList.update\<close>).\<close>

type_synonym ('k, 'v) jsmap = "('k \<times> 'v) list"

definition Map_has :: "('k, 'v) jsmap \<Rightarrow> 'k \<Rightarrow> bool" where
  "Map_has m k = (map_of m k \<noteq> None)"

definition Map_values :: "('k, 'v) jsmap \<Rightarrow> 'v list" where
  "Map_values m = map snd m"

text \<open>\<^verbatim>\<open>m.get(k) || 0\<close> and \<^verbatim>\<open>m.get(k) || []\<close>.\<close>

definition getOrZero :: "(string, real) jsmap \<Rightarrow> string \<Rightarrow> real" where
  "getOrZero m k = orZero (map_of m k)"

definition getOrEmpty :: "(string, string list) jsmap \<Rightarrow> string \<Rightarrow> string list" where
  "getOrEmpty m k = (case map_of m k of None \<Rightarrow> [] | Some v \<Rightarrow> v)"

text \<open>\<^verbatim>\<open>!name || name.trim() === ''\<close>: the name is empty or consists of white space
  (the ASCII white space characters; the model's characters are bytes).\<close>

definition isWhitespace :: "char \<Rightarrow> bool" where
  "isWhitespace c = (c \<in> set [CHR '' '', CHR 0x09, CHR 0x0A, CHR 0x0B, CHR 0x0C, CHR 0x0D])"

definition blankName :: "string \<Rightarrow> bool" where
  "blankName s = list_all isWhitespace s"

subsection \<open>SplitCalculationService: rounding and the distribution helpers\<close>

text \<open>\<^verbatim>\<open>round(value) = Math.round(value * 100) / 100\<close>.\<close>

definition round2 :: "real \<Rightarrow> real" where
  "round2 v = of_int (Math_round (v * 100)) / 100"

definition distributeTax :: "real \<Rightarrow> real \<Rightarrow> real \<Rightarrow> real" where
  "distributeTax participantSubtotal totalSubtotal totalTax =
     (if totalTax = 0 \<or> totalSubtotal = 0 then 0
      else let proportion = participantSubtotal / totalSubtotal
           in round2 (totalTax * proportion))"

definition distributeTip :: "real \<Rightarrow> real \<Rightarrow> real \<Rightarrow> TipDistributionType \<Rightarrow> nat \<Rightarrow> real" where
  "distributeTip participantSubtotal totalSubtotal totalTip distribution participantCount =
     (if totalTip = 0 then 0
      else if distribution = TIP_EQUAL then round2 (totalTip / of_nat participantCount)
      else if totalSubtotal = 0 then round2 (totalTip / of_nat participantCount)
      else let proportion = participantSubtotal / totalSubtotal
           in round2 (totalTip * proportion))"

text \<open>\<^verbatim>\<open>dto.tipDistribution || d\<close>.\<close>

definition tipDistributionOr :: "CalculateSplitDto \<Rightarrow> TipDistributionType \<Rightarrow> TipDistributionType" where
  "tipDistributionOr dto d = (case tipDistribution dto of None \<Rightarrow> d | Some m \<Rightarrow> m)"

text \<open>The object literal every strategy returns for one participant: tax, tip and total
  from the participant's rounded subtotal.\<close>

definition buildShare ::
  "CalculateSplitDto \<Rightarrow> TipDistributionType \<Rightarrow> string \<Rightarrow> real \<Rightarrow> string list option
     \<Rightarrow> ParticipantShareDto" where
  "buildShare dto defaultTip participantId sub its =
     (let tx = distributeTax sub (subtotal dto) (orZero (tax dto));
          tp = distributeTip sub (subtotal dto) (orZero (tip dto))
                 (tipDistributionOr dto defaultTip) (length (participantIds dto));
          tot = round2 (sub + tx + tp)
      in \<lparr>share_participantId = participantId, share_subtotal = sub, share_tax = tx,
          share_tip = tp, share_total = tot, share_items = its\<rparr>)"

subsection \<open>The four strategies\<close>

definition calculateEqualSplit :: "CalculateSplitDto \<Rightarrow> ParticipantShareDto list" where
  "calculateEqualSplit dto =
     (let participantCount = length (participantIds dto);
          subtotalPerPerson = subtotal dto / of_nat participantCount
      in map (\<lambda>participantId.
                buildShare dto TIP_EQUAL participantId (round2 subtotalPerPerson) None)
             (participantIds dto))"

text \<open>The inner \<^verbatim>\<open>forEach\<close> of the itemized strategy: one participant of one item.\<close>

definition addItemShare ::
  "string \<Rightarrow> real \<Rightarrow> (string, real) jsmap \<times> (string, string list) jsmap \<Rightarrow> string
     \<Rightarrow> (string, real) jsmap \<times> (string, string list) jsmap" where
  "addItemShare nm sharePerPerson st participantId =
     (case st of (participantSubtotals, participantItems) \<Rightarrow>
        (AList.update participantId (getOrZero participantSubtotals participantId + sharePerPerson)
           participantSubtotals,
         AList.update participantId (getOrEmpty participantItems participantId @ [nm])
           participantItems))"

definition distributeItem ::
  "(string, real) jsmap \<times> (string, string list) jsmap \<Rightarrow> ItemDto
     \<Rightarrow> (string, real) jsmap \<times> (string, string list) jsmap" where
  "distributeItem st item =
     (let sharePerPerson = item_price item / of_nat (length (item_participantIds item))
      in foldl (addItemShare (item_name item) sharePerPerson) st (item_participantIds item))"

definition initParticipants ::
  "string list \<Rightarrow> (string, real) jsmap \<times> (string, string list) jsmap" where
  "initParticipants ids =
     foldl (\<lambda>st id. (AList.update id 0 (fst st), AList.update id [] (snd st))) ([], []) ids"

definition calculateItemizedSplit :: "CalculateSplitDto \<Rightarrow> ParticipantShareDto list" where
  "calculateItemizedSplit dto =
     (let its = (case items dto of None \<Rightarrow> [] | Some l \<Rightarrow> l);
          st = foldl distributeItem (initParticipants (participantIds dto)) its
      in map (\<lambda>participantId.
                buildShare dto TIP_PROPORTIONAL participantId
                  (round2 (getOrZero (fst st) participantId))
                  (Some (getOrEmpty (snd st) participantId)))
             (participantIds dto))"

definition calculatePercentageSplit :: "CalculateSplitDto \<Rightarrow> ParticipantShareDto list" where
  "calculatePercentageSplit dto =
     (let pcts = (case percentages dto of None \<Rightarrow> [] | Some l \<Rightarrow> l);
          percentageMap = foldl (\<lambda>m pct. AList.update (pct_participantId pct) (percentage pct) m)
                            [] pcts
      in map (\<lambda>participantId.
                buildShare dto TIP_PROPORTIONAL participantId
                  (round2 (subtotal dto * getOrZero percentageMap participantId / 100)) None)
             (participantIds dto))"

definition calculateCustomSplit :: "CalculateSplitDto \<Rightarrow> ParticipantShareDto list" where
  "calculateCustomSplit dto =
     (let cas = (case customAmounts dto of None \<Rightarrow> [] | Some l \<Rightarrow> l);
          amountMap = foldl (\<lambda>m custom. AList.update (custom_participantId custom) (amount custom) m)
                        [] cas
      in map (\<lambda>participantId.
                buildShare dto TIP_PROPORTIONAL participantId
                  (round2 (getOrZero amountMap participantId)) None)
             (participantIds dto))"

text \<open>The \<^verbatim>\<open>switch\<close> of \<^verbatim>\<open>calculateSplit\<close>.\<close>

definition strategyShares :: "CalculateSplitDto \<Rightarrow> ParticipantShareDto list" where
  "strategyShares dto =
     (case splitType dto of
        EQUAL \<Rightarrow> calculateEqualSplit dto
      | ITEMIZED \<Rightarrow> calculateItemizedSplit dto
      | PERCENTAGE \<Rightarrow> calculatePercentageSplit dto
      | CUSTOM \<Rightarrow> calculateCustomSplit dto)"

subsection \<open>Rounding reconciliation\<close>

text \<open>The \<^verbatim>\<open>forEach\<close> that looks for the largest total: the list still to visit, the
  index of its head, and the running \<^verbatim>\<open>maxIndex\<close> and \<^verbatim>\<open>maxTotal\<close>.\<close>

fun maxIndexLoop :: "ParticipantShareDto list \<Rightarrow> nat \<Rightarrow> nat \<Rightarrow> real \<Rightarrow> nat" where
  "maxIndexLoop [] index maxIndex maxTotal = maxIndex"
| "maxIndexLoop (share # rest) index maxIndex maxTotal =
     (if share_total share > maxTotal
      then maxIndexLoop rest (index + 1) index (share_total share)
      else maxIndexLoop rest (index + 1) maxIndex maxTotal)"

definition findMaxIndex :: "ParticipantShareDto list \<Rightarrow> nat" where
  "findMaxIndex shs = maxIndexLoop shs 0 0 (share_total (shs ! 0))"

definition applyRoundingAdjustment ::
  "ParticipantShareDto list \<Rightarrow> real \<Rightarrow> ParticipantShareDto list" where
  "applyRoundingAdjustment shs adjustment =
     (if length shs = 0 \<or> \<bar>adjustment\<bar> < 1 / 1000 then shs
      else let maxIndex = findMaxIndex shs
           in shs[maxIndex := (shs ! maxIndex)
                    \<lparr>share_total := round2 (share_total (shs ! maxIndex) - adjustment)\<rparr>])"

subsection \<open>SplitValidator\<close>

definition validateBasicRequirements :: "CalculateSplitDto \<Rightarrow> ValidationError + unit" where
  "validateBasicRequirements dto =
     (if length (participantIds dto) = 0 then Inl NoParticipants
      else if card (set (participantIds dto)) \<noteq> length (participantIds dto)
        then Inl DuplicateParticipantIds
      else if subtotal dto < 0 then Inl NegativeSubtotal
      else if (case tax dto of None \<Rightarrow> False | Some t \<Rightarrow> t < 0) then Inl NegativeTax
      else if (case tip dto of None \<Rightarrow> False | Some t \<Rightarrow> t < 0) then Inl NegativeTip
      else let total = subtotal dto + orZero (tax dto) + orZero (tip dto)
           in if total \<le> 0 \<and> length (participantIds dto) > 0 then Inl TotalNotPositive
              else Inr ())"

definition validateEqualSplit :: "CalculateSplitDto \<Rightarrow> ValidationError + unit" where
  "validateEqualSplit dto =
     (if items dto \<noteq> None \<or> percentages dto \<noteq> None \<or> customAmounts dto \<noteq> None
      then Inl EqualExtraPayload else Inr ())"

text \<open>The inner \<^verbatim>\<open>forEach\<close> over the participants of one item: the first participant
  that is not in the main list throws.\<close>

fun checkItemParticipants :: "string list \<Rightarrow> string \<Rightarrow> string list \<Rightarrow> ValidationError + unit" where
  "checkItemParticipants mainIds nm [] = Inr ()"
| "checkItemParticipants mainIds nm (participantId # rest) =
     (if participantId \<notin> set mainIds then Inl (ItemForeignParticipant nm participantId)
      else checkItemParticipants mainIds nm rest)"

definition checkItem :: "string list \<Rightarrow> nat \<Rightarrow> ItemDto \<Rightarrow> ValidationError + unit" where
  "checkItem mainIds index item =
     (if item_name item = [] \<or> blankName (item_name item) then Inl (ItemNoName index)
      else if item_price item < 0 then Inl (ItemInvalidPrice (item_name item))
      else if length (item_participantIds item) = 0 then Inl (ItemNoParticipants (item_name item))
      else case checkItemParticipants mainIds (item_name item) (item_participantIds item) of
             Inl e \<Rightarrow> Inl e
           | Inr _ \<Rightarrow>
               if card (set (item_participantIds item)) \<noteq> length (item_participantIds item)
               then Inl (ItemDuplicateParticipants (item_name item))
               else Inr ())"

fun checkItems :: "string list \<Rightarrow> nat \<Rightarrow> ItemDto list \<Rightarrow> ValidationError + unit" where
  "checkItems mainIds index [] = Inr ()"
| "checkItems mainIds index (item # rest) =
     (case checkItem mainIds index item of
        Inl e \<Rightarrow> Inl e
      | Inr _ \<Rightarrow> checkItems mainIds (index + 1) rest)"

definition validateItemizedSplit :: "CalculateSplitDto \<Rightarrow> ValidationError + unit" where
  "validateItemizedSplit dto =
     (case items dto of
        None \<Rightarrow> Inl ItemizedNoItems
      | Some its \<Rightarrow>
          if length its = 0 then Inl ItemizedNoItems
          else if percentages dto \<noteq> None \<or> customAmounts dto \<noteq> None
            then Inl ItemizedExtraPayload
          else (case checkItems (participantIds dto) 0 its of
                  Inl e \<Rightarrow> Inl e
                | Inr _ \<Rightarrow>
                    let itemsTotal = reduce_sum item_price its; tolerance = 1 / 100
                    in if \<bar>itemsTotal - subtotal dto\<bar> > tolerance then Inl ItemsSumMismatch
                       else Inr ()))"

text \<open>The \<^verbatim>\<open>forEach\<close> over the percentage entries, with the map built so far.\<close>

fun checkPercentages ::
  "string list \<Rightarrow> PercentageSplitDto list \<Rightarrow> (string, real) jsmap
     \<Rightarrow> ValidationError + (string, real) jsmap" where
  "checkPercentages mainIds [] percentageMap = Inr percentageMap"
| "checkPercentages mainIds (pct # rest) percentageMap =
     (if pct_participantId pct \<notin> set mainIds
        then Inl (PercentageForeignParticipant (pct_participantId pct))
      else if Map_has percentageMap (pct_participantId pct)
        then Inl (PercentageDuplicateEntry (pct_participantId pct))
      else if percentage pct < 0 \<or> percentage pct > 100
        then Inl (PercentageOutOfRange (pct_participantId pct))
      else checkPercentages mainIds rest
             (AList.update (pct_participantId pct) (percentage pct) percentageMap))"

text \<open>The closing \<^verbatim>\<open>forEach\<close> over the participants: the first one without an entry
  throws with the given error.\<close>

fun checkAllAssigned ::
  "(string \<Rightarrow> ValidationError) \<Rightarrow> (string, real) jsmap \<Rightarrow> string list \<Rightarrow> ValidationError + unit" where
  "checkAllAssigned err m [] = Inr ()"
| "checkAllAssigned err m (participantId # rest) =
     (if \<not> Map_has m participantId then Inl (err participantId)
      else checkAllAssigned err m rest)"

definition validatePercentageSplit :: "CalculateSplitDto \<Rightarrow> ValidationError + unit" where
  "validatePercentageSplit dto =
     (case percentages dto of
        None \<Rightarrow> Inl PercentageMissingConfig
      | Some pcts \<Rightarrow>
          if length pcts = 0 then Inl PercentageMissingConfig
          else if items dto \<noteq> None \<or> customAmounts dto \<noteq> None
            then Inl PercentageExtraPayload
          else (case checkPercentages (participantIds dto) pcts [] of
                  Inl e \<Rightarrow> Inl e
                | Inr percentageMap \<Rightarrow>
                    let totalPercentage = reduce_sum id (Map_values percentageMap);
                        tolerance = 1 / 100
                    in if \<bar>totalPercentage - 100\<bar> > tolerance then Inl PercentageTotalMismatch
                       else checkAllAssigned PercentageMissingParticipant percentageMap
                              (participantIds dto)))"

fun checkCustomAmounts ::
  "string list \<Rightarrow> CustomSplitDto list \<Rightarrow> (string, real) jsmap
     \<Rightarrow> ValidationError + (string, real) jsmap" where
  "checkCustomAmounts mainIds [] amountMap = Inr amountMap"
| "checkCustomAmounts mainIds (custom # rest) amountMap =
     (if custom_participantId custom \<notin> set mainIds
        then Inl (CustomForeignParticipant (custom_participantId custom))
      else if Map_has amountMap (custom_participantId custom)
        then Inl (CustomDuplicateEntry (custom_participantId custom))
      else if amount custom < 0
        then Inl (CustomNegativeAmount (custom_participantId custom))
      else checkCustomAmounts mainIds rest
             (AList.update (custom_participantId custom) (amount custom) amountMap))"

definition validateCustomSplit :: "CalculateSplitDto \<Rightarrow> ValidationError + unit" where
  "validateCustomSplit dto =
     (case customAmounts dto of
        None \<Rightarrow> Inl CustomMissingConfig
      | Some cas \<Rightarrow>
          if length cas = 0 then Inl CustomMissingConfig
          else if items dto \<noteq> None \<or> percentages dto \<noteq> None
            then Inl CustomExtraPayload
          else (case checkCustomAmounts (participantIds dto) cas [] of
                  Inl e \<Rightarrow> Inl e
                | Inr amountMap \<Rightarrow>
                    let totalCustom = reduce_sum id (Map_values amountMap);
                        tolerance = 1 / 100
                    in if \<bar>totalCustom - subtotal dto\<bar> > tolerance then Inl CustomSumMismatch
                       else checkAllAssigned CustomMissingParticipant amountMap
                              (participantIds dto)))"

definition validate :: "CalculateSplitDto \<Rightarrow> ValidationError + unit" where
  "validate dto =
     (case validateBasicRequirements dto of
        Inl e \<Rightarrow> Inl e
      | Inr _ \<Rightarrow>
          (case splitType dto of
             EQUAL \<Rightarrow> validateEqualSplit dto
           | ITEMIZED \<Rightarrow> validateItemizedSplit dto
           | PERCENTAGE \<Rightarrow> validatePercentageSplit dto
           | CUSTOM \<Rightarrow> validateCustomSplit dto))"

definition validateResult :: "CalculateSplitDto \<Rightarrow> real \<Rightarrow> real \<Rightarrow> ValidationError + unit" where
  "validateResult dto calculatedTotal roundingAdj =
     (let expectedTotal = subtotal dto + orZero (tax dto) + orZero (tip dto);
          tolerance = 1 / 100
      in if \<bar>calculatedTotal - expectedTotal\<bar> > tolerance then Inl ResultTotalMismatch
         else let maxAdjustment = of_nat (length (participantIds dto)) * (1 / 100)
              in if \<bar>roundingAdj\<bar> > maxAdjustment then Inl ResultAdjustmentTooLarge
                 else Inr ())"

subsection \<open>calculateSplit\<close>

definition calculateSplit :: "CalculateSplitDto \<Rightarrow> ValidationError + SplitCalculationResultDto" where
  "calculateSplit dto =
     (case validate dto of
        Inl e \<Rightarrow> Inl e
      | Inr _ \<Rightarrow>
          let shs = strategyShares dto;
              calculatedTotal = reduce_sum share_total shs;
              expectedTotal = subtotal dto + orZero (tax dto) + orZero (tip dto);
              roundingAdj = round2 (calculatedTotal - expectedTotal);
              shs = (if \<bar>roundingAdj\<bar> > 1 / 1000 then applyRoundingAdjustment shs roundingAdj
                     else shs);
              finalTotal = reduce_sum share_total shs
          in (case validateResult dto finalTotal roundingAdj of
                Inl e \<Rightarrow> Inl e
              | Inr _ \<Rightarrow>
                  Inr \<lparr>res_splitType = splitType dto,
                       originalSubtotal = subtotal dto,
                       originalTax = orZero (tax dto),
                       originalTip = orZero (tip dto),
                       grandTotal = round2 expectedTotal,
                       shares = shs,
                       roundingAdjustment = roundingAdj\<rparr>))"

text \<open>The local constants of \<^verbatim>\<open>calculateSplit\<close>, named so that theorems can speak of
  them: \<^verbatim>\<open>expectedTotal\<close>, \<^verbatim>\<open>roundingAdjustment\<close> and \<^verbatim>\<open>shares\<close> after the
  reconciliation step.\<close>

definition expectedTotalOf :: "CalculateSplitDto \<Rightarrow> real" where
  "expectedTotalOf dto = subtotal dto + orZero (tax dto) + orZero (tip dto)"

definition roundingAdjustmentOf :: "CalculateSplitDto \<Rightarrow> real" where
  "roundingAdjustmentOf dto =
     round2 (reduce_sum share_total (strategyShares dto) - expectedTotalOf dto)"

definition reconciledShares :: "CalculateSplitDto \<Rightarrow> ParticipantShareDto list" where
  "reconciledShares dto =
     (if \<bar>roundingAdjustmentOf dto\<bar> > 1 / 1000
      then applyRoundingAdjustment (strategyShares dto) (roundingAdjustmentOf dto)
      else strategyShares dto)"

subsection \<open>The share of one participant\<close>

text \<open>What the strategy selected by \<open>splitType\<close> computes for one participant: the body of
  the callback each strategy maps over \<open>participantIds\<close>, together with the maps the strategy
  builds before it.  \<open>strategyShares_map\<close> below shows that \<open>strategyShares\<close> is the map of
  this function over the participants.\<close>

definition shareOf :: "CalculateSplitDto \<Rightarrow> string \<Rightarrow> ParticipantShareDto" where
  "shareOf dto participantId =
     (case splitType dto of
        EQUAL \<Rightarrow>
          buildShare dto TIP_EQUAL participantId
            (round2 (subtotal dto / of_nat (length (participantIds dto)))) None
      | ITEMIZED \<Rightarrow>
          (let st = foldl distributeItem (initParticipants (participantIds dto))
                      (case items dto of None \<Rightarrow> [] | Some l \<Rightarrow> l)
           in buildShare dto TIP_PROPORTIONAL participantId
                (round2 (getOrZero (fst st) participantId))
                (Some (getOrEmpty (snd st) participantId)))
      | PERCENTAGE \<Rightarrow>
          (let percentageMap =
                 foldl (\<lambda>m pct. AList.update (pct_participantId pct) (percentage pct) m) []
                   (case percentages dto of None \<Rightarrow> [] | Some l \<Rightarrow> l)
           in buildShare dto TIP_PROPORTIONAL participantId
                (round2 (subtotal dto * getOrZero percentageMap participantId / 100)) None)
      | CUSTOM \<Rightarrow>
          (let amountMap =
                 foldl (\<lambda>m custom. AList.update (custom_participantId custom) (amount custom) m) []
                   (case customAmounts dto of None \<Rightarrow> [] | Some l \<Rightarrow> l)
           in buildShare dto TIP_PROPORTIONAL participantId
                (round2 (getOrZero amountMap participantId)) None))"

section \<open>Example requests\<close>

text \<open>Equal split of 100 among three participants (the service's own test
  ``should split bill equally among 3 participants with rounding'').\<close>

definition request_equal_three :: CalculateSplitDto where
  "request_equal_three =
     \<lparr>splitType = EQUAL, subtotal = 100, tax = Some 0, tip = Some 0, tipDistribution = None,
      participantIds = [''user1'', ''user2'', ''user3''],
      items = None, percentages = None, customAmounts = None\<rparr>"

text \<open>Equal split of a subtotal of one cent with a tax of 1 among three participants.\<close>

definition request_cent_subtotal :: CalculateSplitDto where
  "request_cent_subtotal =
     \<lparr>splitType = EQUAL, subtotal = 1 / 100, tax = Some 1, tip = None, tipDistribution = None,
      participantIds = [''a'', ''b'', ''c''],
      items = None, percentages = None, customAmounts = None\<rparr>"

text \<open>An ordinary bill: 194.93 with a tax of 10.33 and a tip of 23.51, split equally between two.\<close>

definition request_ordinary_bill :: CalculateSplitDto where
  "request_ordinary_bill =
     \<lparr>splitType = EQUAL, subtotal = 19493 / 100, tax = Some (1033 / 100), tip = Some (2351 / 100),
      tipDistribution = None, participantIds = [''a'', ''b''],
      items = None, percentages = None, customAmounts = None\<rparr>"

text \<open>Equal split of 10.004 for one participant: a subtotal with three decimals.\<close>

definition request_three_decimals :: CalculateSplitDto where
  "request_three_decimals =
     \<lparr>splitType = EQUAL, subtotal = 10004 / 1000, tax = None, tip = None, tipDistribution = None,
      participantIds = [''a''],
      items = None, percentages = None, customAmounts = None\<rparr>"

text \<open>The result of \<open>request_equal_three\<close>: the first share carries the correction of one cent.\<close>

definition result_equal_three :: SplitCalculationResultDto where
  "result_equal_three =
     \<lparr>res_splitType = EQUAL, originalSubtotal = 100, originalTax = 0, originalTip = 0,
      grandTotal = 100,
      shares =
        [\<lparr>share_participantId = ''user1'', share_subtotal = 3333 / 100, share_tax = 0,
           share_tip = 0, share_total = 3334 / 100, share_items = None\<rparr>,
         \<lparr>share_participantId = ''user2'', share_subtotal = 3333 / 100, share_tax = 0,
           share_tip = 0, share_total = 3333 / 100, share_items = None\<rparr>,
         \<lparr>share_participantId = ''user3'', share_subtotal = 3333 / 100, share_tax = 0,
           share_tip = 0, share_total = 3333 / 100, share_items = None\<rparr>],
      roundingAdjustment = - 1 / 100\<rparr>"

definition result_three_decimals :: SplitCalculationResultDto where
  "result_three_decimals =
     \<lparr>res_splitType = EQUAL, originalSubtotal = 10004 / 1000, originalTax = 0, originalTip = 0,
      grandTotal = 10,
      shares =
        [\<lparr>share_participantId = ''a'', share_subtotal = 10, share_tax = 0,
           share_tip = 0, share_total = 10, share_items = None\<rparr>],
      roundingAdjustment = 0\<rparr>"

text \<open>Itemized split (item A of 30 for u1, item B of 20 for u2, tax 5, tip 10) with a third
  participant who is assigned to no item.\<close>

definition request_itemized_idle :: CalculateSplitDto where
  "request_itemized_idle =
     \<lparr>splitType = ITEMIZED, subtotal = 50, tax = Some 5, tip = Some 10, tipDistribution = None,
      participantIds = [''u1'', ''u2'', ''u3''],
      items = Some [\<lparr>item_name = ''A'', item_price = 30, item_participantIds = [''u1'']\<rparr>,
                    \<lparr>item_name = ''B'', item_price = 20, item_participantIds = [''u2'']\<rparr>],
      percentages = None, customAmounts = None\<rparr>"

definition result_itemized_idle :: SplitCalculationResultDto where
  "result_itemized_idle =
     \<lparr>res_splitType = ITEMIZED, originalSubtotal = 50, originalTax = 5, originalTip = 10,
      grandTotal = 65,
      shares =
        [\<lparr>share_participantId = ''u1'', share_subtotal = 30, share_tax = 3,
           share_tip = 6, share_total = 39, share_items = Some [''A'']\<rparr>,
         \<lparr>share_participantId = ''u2'', share_subtotal = 20, share_tax = 2,
           share_tip = 4, share_total = 26, share_items = Some [''B'']\<rparr>,
         \<lparr>share_participantId = ''u3'', share_subtotal = 0, share_tax = 0,
           share_tip = 0, share_total = 0, share_items = Some []\<rparr>],
      roundingAdjustment = 0\<rparr>"

text \<open>A Percentage request whose single entry is valid and which also carries an empty
  \<^verbatim>\<open>items\<close> array, and the specification's scenario of entries summing to 99.5.\<close>

definition request_percentage_with_items :: CalculateSplitDto where
  "request_percentage_with_items =
     \<lparr>splitType = PERCENTAGE, subtotal = 100, tax = None, tip = None, tipDistribution = None,
      participantIds = [''a''],
      items = Some [],
      percentages = Some [\<lparr>pct_participantId = ''a'', percentage = 100\<rparr>],
      customAmounts = None\<rparr>"

definition request_percentage_short :: CalculateSplitDto where
  "request_percentage_short =
     \<lparr>splitType = PERCENTAGE, subtotal = 100, tax = Some 10, tip = Some 20, tipDistribution = None,
      participantIds = [''u1'', ''u2''],
      items = None,
      percentages = Some [\<lparr>pct_participantId = ''u1'', percentage = 60\<rparr>,
                          \<lparr>pct_participantId = ''u2'', percentage = 395 / 10\<rparr>],
      customAmounts = None\<rparr>"

text \<open>The specification's scenario of entries 60 and 40.\<close>

definition request_percentage_sixty_forty :: CalculateSplitDto where
  "request_percentage_sixty_forty =
     \<lparr>splitType = PERCENTAGE, subtotal = 100, tax = Some 10, tip = Some 20, tipDistribution = None,
      participantIds = [''u1'', ''u2''],
      items = None,
      percentages = Some [\<lparr>pct_participantId = ''u1'', percentage = 60\<rparr>,
                          \<lparr>pct_participantId = ''u2'', percentage = 40\<rparr>],
      customAmounts = None\<rparr>"

text \<open>Custom split of 100 into 99 and 1 with a tax of 0.60, and its result.\<close>

definition request_uneven_tax :: CalculateSplitDto where
  "request_uneven_tax =
     \<lparr>splitType = CUSTOM, subtotal = 100, tax = Some (6 / 10), tip = None, tipDistribution = None,
      participantIds = [''x'', ''y''],
      items = None, percentages = None,
      customAmounts = Some [\<lparr>custom_participantId = ''x'', amount = 99\<rparr>,
                            \<lparr>custom_participantId = ''y'', amount = 1\<rparr>]\<rparr>"

definition result_uneven_tax :: SplitCalculationResultDto where
  "result_uneven_tax =
     \<lparr>res_splitType = CUSTOM, originalSubtotal = 100, originalTax = 6 / 10, originalTip = 0,
      grandTotal = 1006 / 10,
      shares =
        [\<lparr>share_participantId = ''x'', share_subtotal = 99, share_tax = 59 / 100,
           share_tip = 0, share_total = 9959 / 100, share_items = None\<rparr>,
         \<lparr>share_participantId = ''y'', share_subtotal = 1, share_tax = 1 / 100,
           share_tip = 0, share_total = 101 / 100, share_items = None\<rparr>],
      roundingAdjustment = 0\<rparr>"

text \<open>The equal split of 100 with the first two participants exchanged, and its result.\<close>

definition request_equal_three_swapped :: CalculateSplitDto where
  "request_equal_three_swapped =
     request_equal_three\<lparr>participantIds := [''user2'', ''user1'', ''user3'']\<rparr>"

definition result_equal_three_swapped :: SplitCalculationResultDto where
  "result_equal_three_swapped =
     \<lparr>res_splitType = EQUAL, originalSubtotal = 100, originalTax = 0, originalTip = 0,
      grandTotal = 100,
      shares =
        [\<lparr>share_participantId = ''user2'', share_subtotal = 3333 / 100, share_tax = 0,
           share_tip = 0, share_total = 3334 / 100, share_items = None\<rparr>,
         \<lparr>share_participantId = ''user1'', share_subtotal = 3333 / 100, share_tax = 0,
           share_tip = 0, share_total = 3333 / 100, share_items = None\<rparr>,
         \<lparr>share_participantId = ''user3'', share_subtotal = 3333 / 100, share_tax = 0,
           share_tip = 0, share_total = 3333 / 100, share_items = None\<rparr>],
      roundingAdjustment = - 1 / 100\<rparr>"

section \<open>The distribution formulas and the percentage rules in the specification's words\<close>

text \<open>The tax share as the specification writes it, in exact arithmetic.\<close>

definition spec_taxShare :: "CalculateSplitDto \<Rightarrow> real \<Rightarrow> real" where
  "spec_taxShare dto participantSubtotal =
     (if orZero (tax dto) = 0 \<or> subtotal dto = 0 then 0
      else round2 (orZero (tax dto) * participantSubtotal / subtotal dto))"

text \<open>The five percentage rules of the specification, as the condition under which a
  list of entries violates one of them: a participant without an entry, an entry for a
  foreign participant, two entries for one participant, a percentage outside \<open>[0, 100]\<close>,
  a sum further than 0.01 from 100.\<close>

definition spec_percentageViolation :: "string list \<Rightarrow> PercentageSplitDto list \<Rightarrow> bool" where
  "spec_percentageViolation ids pcts \<longleftrightarrow>
     (\<exists>p \<in> set ids. p \<notin> pct_participantId ` set pcts) \<or>
     (\<exists>e \<in> set pcts. pct_participantId e \<notin> set ids) \<or>
     \<not> distinct (map pct_participantId pcts) \<or>
     (\<exists>e \<in> set pcts. percentage e < 0 \<or> percentage e > 100) \<or>
     \<bar>sum_list (map percentage pcts) - 100\<bar> > 1 / 100"

section \<open>Properties\<close>

subsection \<open>Rounding to cents\<close>

text \<open>An amount \<open>a\<close> is a whole number of cents exactly when \<open>round2 a = a\<close>.\<close>

lemma round2_floor: "round2 v = of_int \<lfloor>v * 100 + 1 / 2\<rfloor> / 100"
  by (simp add: round2_def Math_round_def)

lemma round2_upper: "round2 v \<le> v + 1 / 200"
proof -
  have "of_int \<lfloor>v * 100 + 1 / 2\<rfloor> \<le> v * 100 + 1 / 2" by (rule of_int_floor_le)
  then show ?thesis unfolding round2_floor by (simp add: field_simps)
qed

lemma round2_lower: "v - 1 / 200 < round2 v"
proof -
  have "v * 100 + 1 / 2 < of_int \<lfloor>v * 100 + 1 / 2\<rfloor> + 1" by linarith
  then show ?thesis unfolding round2_floor by (simp add: field_simps)
qed

lemma round2_of_int: "round2 (of_int k / 100) = of_int k / 100"
proof -
  have "\<lfloor>(of_int k :: real) + 1 / 2\<rfloor> = k" by linarith
  then show ?thesis by (simp add: round2_floor)
qed

lemma round2_idem: "round2 (round2 v) = round2 v"
  unfolding round2_floor [of v] by (rule round2_of_int)

lemma centsE: assumes "round2 a = a" obtains k :: int where "a = of_int k / 100"
  using assms round2_floor [of a] by metis

lemma round2_add_cents: assumes "round2 a = a" shows "round2 (a + b) = a + round2 b"
proof -
  from assms obtain k :: int where a: "a = of_int k / 100" by (rule centsE)
  have "\<lfloor>of_int k + (b * 100 + 1 / 2)\<rfloor> = k + \<lfloor>b * 100 + 1 / 2\<rfloor>" by linarith
  then have "\<lfloor>(of_int k / 100 + b) * 100 + 1 / 2\<rfloor> = k + \<lfloor>b * 100 + 1 / 2\<rfloor>"
    by (simp add: algebra_simps)
  then show ?thesis unfolding a round2_floor by (simp add: field_simps)
qed

lemma round2_zero: "round2 0 = 0"
  using round2_of_int [of 0] by simp

lemma cents_add: "round2 a = a \<Longrightarrow> round2 b = b \<Longrightarrow> round2 (a + b) = a + b"
  by (simp add: round2_add_cents)

lemma cents_minus: assumes "round2 a = a" shows "round2 (- a) = - a"
proof -
  from assms obtain k :: int where a: "a = of_int k / 100" by (rule centsE)
  have "- a = of_int (- k) / 100" unfolding a by simp
  then show ?thesis using round2_of_int [of "- k"] by metis
qed

lemma cents_diff: "round2 a = a \<Longrightarrow> round2 b = b \<Longrightarrow> round2 (a - b) = a - b"
  using cents_add [of a "- b"] cents_minus [of b] by simp

lemma reduce_sum_eq: "reduce_sum f xs = sum_list (map f xs)"
proof -
  have "foldl (\<lambda>sum x. sum + f x) a xs = a + sum_list (map f xs)" for a
    by (induction xs arbitrary: a) (simp_all add: add.assoc)
  then show ?thesis by (simp add: reduce_sum_def)
qed

subsection \<open>Shares built by the strategies\<close>

lemma distributeTax_cents: "round2 (distributeTax p s t) = distributeTax p s t"
  by (simp add: distributeTax_def Let_def round2_idem round2_zero)

lemma distributeTip_cents: "round2 (distributeTip p s t d n) = distributeTip p s t d n"
  by (simp add: distributeTip_def Let_def round2_idem round2_zero)

lemma buildShare_fields:
  "share_participantId (buildShare dto d pid sub its) = pid"
  "share_subtotal (buildShare dto d pid sub its) = sub"
  "share_tax (buildShare dto d pid sub its) = distributeTax sub (subtotal dto) (orZero (tax dto))"
  "share_tip (buildShare dto d pid sub its) =
     distributeTip sub (subtotal dto) (orZero (tip dto)) (tipDistributionOr dto d)
       (length (participantIds dto))"
  "share_total (buildShare dto d pid sub its) =
     round2 (sub + distributeTax sub (subtotal dto) (orZero (tax dto))
        + distributeTip sub (subtotal dto) (orZero (tip dto)) (tipDistributionOr dto d)
            (length (participantIds dto)))"
  "share_items (buildShare dto d pid sub its) = its"
  by (simp_all add: buildShare_def Let_def)

lemma strategyShares_built:
  assumes "sh \<in> set (strategyShares dto)"
  shows "\<exists>d pid raw its. sh = buildShare dto d pid (round2 raw) its"
  using assms
  by (cases "splitType dto")
     (auto simp: strategyShares_def calculateEqualSplit_def calculateItemizedSplit_def
        calculatePercentageSplit_def calculateCustomSplit_def Let_def)

lemma strategyShares_cents:
  assumes "sh \<in> set (strategyShares dto)"
  shows "round2 (share_subtotal sh) = share_subtotal sh"
    and "round2 (share_tax sh) = share_tax sh"
    and "round2 (share_tip sh) = share_tip sh"
    and "round2 (share_total sh) = share_total sh"
    and "share_total sh = share_subtotal sh + share_tax sh + share_tip sh"
proof -
  from strategyShares_built [OF assms] obtain d pid raw its
    where sh: "sh = buildShare dto d pid (round2 raw) its" by blast
  show "round2 (share_subtotal sh) = share_subtotal sh"
    and "round2 (share_tax sh) = share_tax sh"
    and "round2 (share_tip sh) = share_tip sh"
    and "round2 (share_total sh) = share_total sh"
    by (simp_all add: sh buildShare_fields round2_idem distributeTax_cents distributeTip_cents)
  show "share_total sh = share_subtotal sh + share_tax sh + share_tip sh"
    by (simp add: sh buildShare_fields cents_add round2_idem distributeTax_cents distributeTip_cents)
qed

lemma strategyShares_ids: "map share_participantId (strategyShares dto) = participantIds dto"
  by (cases "splitType dto")
     (simp_all add: strategyShares_def calculateEqualSplit_def calculateItemizedSplit_def
        calculatePercentageSplit_def calculateCustomSplit_def Let_def buildShare_fields comp_def)

lemma strategyShares_length: "length (strategyShares dto) = length (participantIds dto)"
  using strategyShares_ids [of dto] by (metis length_map)

subsection \<open>The largest share\<close>

lemma maxIndexLoop_inv:
  assumes "all = pre @ rest" and "mi < length all" and "mt = share_total (all ! mi)"
    and "\<forall>j<length pre. share_total (all ! j) \<le> mt"
    and "\<forall>j<mi. share_total (all ! j) < mt"
  shows "maxIndexLoop rest (length pre) mi mt < length all \<and>
         (\<forall>j<length all. share_total (all ! j) \<le> share_total (all ! maxIndexLoop rest (length pre) mi mt)) \<and>
         (\<forall>j<maxIndexLoop rest (length pre) mi mt.
            share_total (all ! j) < share_total (all ! maxIndexLoop rest (length pre) mi mt))"
  using assms
proof (induction rest arbitrary: pre mi mt)
  case Nil
  then show ?case by simp
next
  case (Cons x rest)
  have x: "all ! length pre = x" using Cons.prems(1) by simp
  have split: "all = (pre @ [x]) @ rest" using Cons.prems(1) by simp
  have len: "length pre < length all" using Cons.prems(1) by simp
  show ?case
  proof (cases "share_total x > mt")
    case True
    have "\<forall>j<length (pre @ [x]). share_total (all ! j) \<le> share_total x"
      using Cons.prems(4) True x by (auto simp: less_Suc_eq)
    moreover have "\<forall>j<length pre. share_total (all ! j) < share_total x"
      using Cons.prems(4) True by fastforce
    ultimately show ?thesis
      using Cons.IH [OF split len, of "share_total x"] True x by simp
  next
    case False
    have "\<forall>j<length (pre @ [x]). share_total (all ! j) \<le> mt"
      using Cons.prems(4) False x by (auto simp: less_Suc_eq)
    then show ?thesis
      using Cons.IH [OF split Cons.prems(2) Cons.prems(3) _ Cons.prems(5)] False by simp
  qed
qed

lemma findMaxIndex_spec:
  assumes "shs \<noteq> []"
  shows "findMaxIndex shs < length shs"
    and "\<forall>j<length shs. share_total (shs ! j) \<le> share_total (shs ! findMaxIndex shs)"
    and "\<forall>j<findMaxIndex shs. share_total (shs ! j) < share_total (shs ! findMaxIndex shs)"
  using maxIndexLoop_inv [of shs "[]" shs 0 "share_total (shs ! 0)"] assms
  by (simp_all add: findMaxIndex_def)

subsection \<open>The steps of calculateSplit\<close>

lemma calculateSplit_unfold:
  "calculateSplit dto =
     (case validate dto of
        Inl e \<Rightarrow> Inl e
      | Inr _ \<Rightarrow>
          (case validateResult dto (reduce_sum share_total (reconciledShares dto))
                  (roundingAdjustmentOf dto) of
             Inl e \<Rightarrow> Inl e
           | Inr _ \<Rightarrow>
               Inr \<lparr>res_splitType = splitType dto,
                    originalSubtotal = subtotal dto,
                    originalTax = orZero (tax dto),
                    originalTip = orZero (tip dto),
                    grandTotal = round2 (expectedTotalOf dto),
                    shares = reconciledShares dto,
                    roundingAdjustment = roundingAdjustmentOf dto\<rparr>))"
  by (simp add: calculateSplit_def reconciledShares_def roundingAdjustmentOf_def
        expectedTotalOf_def Let_def split: sum.splits)

lemma calculateSplit_InrD:
  assumes "calculateSplit dto = Inr res"
  shows "validate dto = Inr ()"
    and "validateResult dto (reduce_sum share_total (reconciledShares dto))
           (roundingAdjustmentOf dto) = Inr ()"
    and "shares res = reconciledShares dto"
    and "roundingAdjustment res = roundingAdjustmentOf dto"
    and "grandTotal res = round2 (expectedTotalOf dto)"
    and "originalSubtotal res = subtotal dto"
    and "originalTax res = orZero (tax dto)"
    and "originalTip res = orZero (tip dto)"
    and "res_splitType res = splitType dto"
  using assms unfolding calculateSplit_unfold
  by (auto split: sum.splits)

lemma validate_basic:
  assumes "validate dto = Inr ()"
  shows "participantIds dto \<noteq> []" and "distinct (participantIds dto)"
    and "0 \<le> subtotal dto" and "0 \<le> orZero (tax dto)" and "0 \<le> orZero (tip dto)"
    and "0 < expectedTotalOf dto"
proof -
  from assms have b: "validateBasicRequirements dto = Inr ()"
    by (auto simp: validate_def split: sum.splits)
  from b show "participantIds dto \<noteq> []"
    by (auto simp: validateBasicRequirements_def split: if_splits)
  from b have "card (set (participantIds dto)) = length (participantIds dto)"
    by (auto simp: validateBasicRequirements_def Let_def split: if_splits)
  then show "distinct (participantIds dto)" by (rule card_distinct)
  from b show "0 \<le> subtotal dto" "0 \<le> orZero (tax dto)" "0 \<le> orZero (tip dto)"
    "0 < expectedTotalOf dto"
    by (auto simp: validateBasicRequirements_def Let_def orZero_def expectedTotalOf_def
          split: if_splits option.splits)
qed

lemma roundingAdjustment_cents: "round2 (roundingAdjustmentOf dto) = roundingAdjustmentOf dto"
  by (simp add: roundingAdjustmentOf_def round2_idem)

lemma reconciledShares_eq:
  assumes "participantIds dto \<noteq> []"
  shows "reconciledShares dto =
     (if \<bar>roundingAdjustmentOf dto\<bar> > 1 / 1000
      then (strategyShares dto)[findMaxIndex (strategyShares dto) :=
             (strategyShares dto ! findMaxIndex (strategyShares dto))
               \<lparr>share_total := round2 (share_total (strategyShares dto ! findMaxIndex (strategyShares dto))
                   - roundingAdjustmentOf dto)\<rparr>]
      else strategyShares dto)"
  using assms strategyShares_length [of dto]
  by (auto simp: reconciledShares_def applyRoundingAdjustment_def Let_def)

lemma strategyShares_nonempty: "participantIds dto \<noteq> [] \<Longrightarrow> strategyShares dto \<noteq> []"
  using strategyShares_length [of dto] by auto

subsection \<open>The reconciled shares\<close>

lemma reconciledShares_length:
  "length (reconciledShares dto) = length (strategyShares dto)"
  by (simp add: reconciledShares_def applyRoundingAdjustment_def Let_def)

lemma reconciledShares_nth:
  assumes "participantIds dto \<noteq> []" and "i < length (strategyShares dto)"
  shows "reconciledShares dto ! i =
     (if \<bar>roundingAdjustmentOf dto\<bar> > 1 / 1000 \<and> i = findMaxIndex (strategyShares dto)
      then (strategyShares dto ! i)
             \<lparr>share_total := share_total (strategyShares dto ! i) - roundingAdjustmentOf dto\<rparr>
      else strategyShares dto ! i)"
proof -
  let ?ss = "strategyShares dto"
  let ?m = "findMaxIndex ?ss"
  have m: "?m < length ?ss" by (rule findMaxIndex_spec(1) [OF strategyShares_nonempty [OF assms(1)]])
  then have mem: "?ss ! ?m \<in> set ?ss" by simp
  have "round2 (share_total (?ss ! ?m) - roundingAdjustmentOf dto)
          = share_total (?ss ! ?m) - roundingAdjustmentOf dto"
    by (rule cents_diff [OF strategyShares_cents(4) [OF mem] roundingAdjustment_cents])
  then show ?thesis
    using assms(2) by (simp add: reconciledShares_eq [OF assms(1)] nth_list_update)
qed

text \<open>The itemized strategy: a participant of no item keeps the initial entries.\<close>

lemma initParticipants_foldl:
  "map_of (fst (foldl (\<lambda>st id. (AList.update id 0 (fst st), AList.update id [] (snd st))) st ids)) p
     = (if p \<in> set ids then Some 0 else map_of (fst st) p) \<and>
   map_of (snd (foldl (\<lambda>st id. (AList.update id 0 (fst st), AList.update id [] (snd st))) st ids)) p
     = (if p \<in> set ids then Some [] else map_of (snd st) p)"
  by (induction ids arbitrary: st) (simp_all add: update_conv')

lemma initParticipants_map_of:
  "map_of (fst (initParticipants ids)) p = (if p \<in> set ids then Some 0 else None)"
  "map_of (snd (initParticipants ids)) p = (if p \<in> set ids then Some [] else None)"
  using initParticipants_foldl [of "([], [])" ids p] by (auto simp: initParticipants_def)

lemma addItemShare_other:
  assumes "p \<noteq> q"
  shows "map_of (fst (addItemShare nm s st q)) p = map_of (fst st) p"
    and "map_of (snd (addItemShare nm s st q)) p = map_of (snd st) p"
  using assms by (simp_all add: addItemShare_def update_conv' split: prod.splits)

lemma foldl_addItemShare_other:
  assumes "p \<notin> set qs"
  shows "map_of (fst (foldl (addItemShare nm s) st qs)) p = map_of (fst st) p \<and>
         map_of (snd (foldl (addItemShare nm s) st qs)) p = map_of (snd st) p"
  using assms by (induction qs arbitrary: st) (simp_all add: addItemShare_other)

lemma distributeItem_other:
  assumes "p \<notin> set (item_participantIds item)"
  shows "map_of (fst (distributeItem st item)) p = map_of (fst st) p"
    and "map_of (snd (distributeItem st item)) p = map_of (snd st) p"
  using foldl_addItemShare_other [OF assms] by (simp_all add: distributeItem_def Let_def)

lemma foldl_distributeItem_other:
  assumes "\<forall>item \<in> set its. p \<notin> set (item_participantIds item)"
  shows "map_of (fst (foldl distributeItem st its)) p = map_of (fst st) p \<and>
         map_of (snd (foldl distributeItem st its)) p = map_of (snd st) p"
  using assms by (induction its arbitrary: st) (simp_all add: distributeItem_other)

lemma itemized_unassigned:
  assumes "items dto = Some its" and "i < length (participantIds dto)"
    and "\<forall>item \<in> set its. participantIds dto ! i \<notin> set (item_participantIds item)"
  shows "share_subtotal (calculateItemizedSplit dto ! i) = 0"
    and "share_items (calculateItemizedSplit dto ! i) = Some []"
  using foldl_distributeItem_other [OF assms(3), of "initParticipants (participantIds dto)"] assms(1,2)
  by (simp_all add: calculateItemizedSplit_def Let_def buildShare_fields getOrZero_def
        getOrEmpty_def orZero_def initParticipants_map_of round2_zero)

text \<open>The example requests, evaluated.\<close>

lemma calculateSplit_equal_three: "calculateSplit request_equal_three = Inr result_equal_three"
  by code_simp

lemma calculateSplit_three_decimals:
  "calculateSplit request_three_decimals = Inr result_three_decimals"
  by code_simp

lemma initParticipants_itemized_idle:
  "initParticipants (participantIds request_itemized_idle) =
     ([(''u1'', 0), (''u2'', 0), (''u3'', 0)], [(''u1'', []), (''u2'', []), (''u3'', [])])"
  by (simp add: initParticipants_def request_itemized_idle_def)

lemma validate_itemized_idle: "validate request_itemized_idle = Inr ()"
  by (simp add: validate_def validateBasicRequirements_def validateItemizedSplit_def
        request_itemized_idle_def Let_def orZero_def checkItem_def blankName_def isWhitespace_def
        reduce_sum_def)

lemma strategyShares_itemized_idle:
  "strategyShares request_itemized_idle = shares result_itemized_idle"
  unfolding strategyShares_def calculateItemizedSplit_def initParticipants_itemized_idle
  by (simp add: request_itemized_idle_def result_itemized_idle_def Let_def distributeItem_def
        addItemShare_def getOrZero_def getOrEmpty_def orZero_def buildShare_def distributeTax_def
        distributeTip_def tipDistributionOr_def round2_def Math_round_def)

lemma calculateSplit_itemized_idle:
  "calculateSplit request_itemized_idle = Inr result_itemized_idle"
  unfolding calculateSplit_def validate_itemized_idle strategyShares_itemized_idle
  by (simp add: Let_def reduce_sum_def result_itemized_idle_def round2_def Math_round_def
        validateResult_def request_itemized_idle_def orZero_def)

lemma validate_uneven_tax: "validate request_uneven_tax = Inr ()"
  by (simp add: validate_def validateBasicRequirements_def validateCustomSplit_def
        request_uneven_tax_def Let_def orZero_def Map_has_def Map_values_def reduce_sum_def)

lemma strategyShares_uneven_tax: "strategyShares request_uneven_tax = shares result_uneven_tax"
  by (simp add: strategyShares_def calculateCustomSplit_def request_uneven_tax_def
        result_uneven_tax_def Let_def getOrZero_def orZero_def buildShare_def distributeTax_def
        distributeTip_def tipDistributionOr_def round2_def Math_round_def)

lemma calculateSplit_uneven_tax: "calculateSplit request_uneven_tax = Inr result_uneven_tax"
  unfolding calculateSplit_def validate_uneven_tax strategyShares_uneven_tax
  by (simp add: Let_def reduce_sum_def result_uneven_tax_def round2_def Math_round_def
        validateResult_def request_uneven_tax_def orZero_def)


lemma findMaxIndex_equal_three: "findMaxIndex (strategyShares request_equal_three) = 0"
  by code_simp

subsection \<open>Tax shares\<close>

lemma strategyShares_tax:
  assumes "sh \<in> set (strategyShares dto)"
  shows "share_tax sh = spec_taxShare dto (share_subtotal sh)"
proof -
  from strategyShares_built [OF assms] obtain d pid raw its
    where sh: "sh = buildShare dto d pid (round2 raw) its" by blast
  show ?thesis
    unfolding sh buildShare_fields by (simp add: distributeTax_def spec_taxShare_def Let_def)
qed

lemma result_share_nth:
  assumes "calculateSplit dto = Inr res" and "i < length (participantIds dto)"
  shows "share_participantId (shares res ! i) = share_participantId (strategyShares dto ! i)"
    and "share_subtotal (shares res ! i) = share_subtotal (strategyShares dto ! i)"
    and "share_tax (shares res ! i) = share_tax (strategyShares dto ! i)"
    and "share_tip (shares res ! i) = share_tip (strategyShares dto ! i)"
    and "share_items (shares res ! i) = share_items (strategyShares dto ! i)"
proof -
  note r = calculateSplit_InrD [OF assms(1)]
  have ne: "participantIds dto \<noteq> []" by (rule validate_basic(1) [OF r(1)])
  have i: "i < length (strategyShares dto)" using assms(2) by (simp add: strategyShares_length)
  show "share_participantId (shares res ! i) = share_participantId (strategyShares dto ! i)"
    and "share_subtotal (shares res ! i) = share_subtotal (strategyShares dto ! i)"
    and "share_tax (shares res ! i) = share_tax (strategyShares dto ! i)"
    and "share_tip (shares res ! i) = share_tip (strategyShares dto ! i)"
    and "share_items (shares res ! i) = share_items (strategyShares dto ! i)"
    by (auto simp: r(3) reconciledShares_nth [OF ne i])
qed

lemma taxShare_error:
  "subtotal dto \<noteq> 0 \<Longrightarrow>
     \<bar>spec_taxShare dto s - orZero (tax dto) * s / subtotal dto\<bar> \<le> 1 / 200"
proof (cases "orZero (tax dto) = 0")
  case True
  then show ?thesis by (simp add: spec_taxShare_def)
next
  case False
  assume "subtotal dto \<noteq> 0"
  with False have "spec_taxShare dto s = round2 (orZero (tax dto) * s / subtotal dto)"
    by (simp add: spec_taxShare_def)
  then show ?thesis
    using round2_upper [of "orZero (tax dto) * s / subtotal dto"]
      round2_lower [of "orZero (tax dto) * s / subtotal dto"]
    by linarith
qed

subsection \<open>The percentage validator\<close>

lemma Map_has_iff: "Map_has m k \<longleftrightarrow> k \<in> fst ` set m"
  by (simp add: Map_has_def map_of_eq_None_iff)

lemma update_fresh: "k \<notin> fst ` set m \<Longrightarrow> AList.update k v m = m @ [(k, v)]"
  by (induction m) auto

lemma checkPercentages_Inr_iff:
  "(\<exists>m'. checkPercentages ids pcts m = Inr m') \<longleftrightarrow>
     (\<forall>e \<in> set pcts. pct_participantId e \<in> set ids \<and> 0 \<le> percentage e \<and> percentage e \<le> 100
        \<and> pct_participantId e \<notin> fst ` set m) \<and>
     distinct (map pct_participantId pcts)"
proof (induction pcts arbitrary: m)
  case Nil
  then show ?case by simp
next
  case (Cons e pcts)
  show ?case
  proof (cases "pct_participantId e \<in> set ids \<and> \<not> Map_has m (pct_participantId e)
                  \<and> \<not> (percentage e < 0 \<or> percentage e > 100)")
    case False
    then show ?thesis by (auto simp: Map_has_iff)
  next
    case True
    then have fresh: "pct_participantId e \<notin> fst ` set m" by (simp add: Map_has_iff)
    have "checkPercentages ids (e # pcts) m
            = checkPercentages ids pcts (m @ [(pct_participantId e, percentage e)])"
      using True by (simp add: update_fresh [OF fresh])
    then have "(\<exists>m'. checkPercentages ids (e # pcts) m = Inr m') \<longleftrightarrow>
        (\<forall>e' \<in> set pcts. pct_participantId e' \<in> set ids \<and> 0 \<le> percentage e'
           \<and> percentage e' \<le> 100
           \<and> pct_participantId e' \<notin> fst ` set (m @ [(pct_participantId e, percentage e)])) \<and>
        distinct (map pct_participantId pcts)"
      using Cons.IH [of "m @ [(pct_participantId e, percentage e)]"] by simp
    also have "\<dots> \<longleftrightarrow>
        (\<forall>e' \<in> set (e # pcts). pct_participantId e' \<in> set ids \<and> 0 \<le> percentage e'
           \<and> percentage e' \<le> 100 \<and> pct_participantId e' \<notin> fst ` set m) \<and>
        distinct (map pct_participantId (e # pcts))"
      using True fresh by (simp add: not_less not_le image_iff) metis
    finally show ?thesis .
  qed
qed

lemma checkPercentages_result:
  "checkPercentages ids pcts m = Inr m' \<Longrightarrow>
     m' = m @ map (\<lambda>e. (pct_participantId e, percentage e)) pcts"
proof (induction pcts arbitrary: m)
  case Nil
  then show ?case by simp
next
  case (Cons e pcts)
  from Cons.prems have ok: "pct_participantId e \<in> set ids" "\<not> Map_has m (pct_participantId e)"
    "\<not> (percentage e < 0 \<or> percentage e > 100)"
    by (auto split: if_splits)
  then have fresh: "pct_participantId e \<notin> fst ` set m" by (simp add: Map_has_iff)
  from Cons.prems ok
  have "checkPercentages ids pcts (m @ [(pct_participantId e, percentage e)]) = Inr m'"
    by (simp add: update_fresh [OF fresh])
  from Cons.IH [OF this] show ?case by simp
qed

lemma checkAllAssigned_iff:
  "checkAllAssigned err m ps = Inr () \<longleftrightarrow> (\<forall>p \<in> set ps. Map_has m p)"
  by (induction ps) auto

lemma validatePercentageSplit_iff:
  "validatePercentageSplit dto = Inr () \<longleftrightarrow>
     (\<exists>pcts. percentages dto = Some pcts \<and> items dto = None \<and> customAmounts dto = None \<and>
        \<not> spec_percentageViolation (participantIds dto) pcts)"
proof (cases "percentages dto")
  case None
  then show ?thesis by (simp add: validatePercentageSplit_def)
next
  case (Some pcts)
  show ?thesis
  proof (cases "items dto \<noteq> None \<or> customAmounts dto \<noteq> None")
    case True
    then show ?thesis using Some by (auto simp: validatePercentageSplit_def)
  next
    case False
    show ?thesis
    proof (cases "checkPercentages (participantIds dto) pcts []")
      case (Inl e)
      then have "\<not> (\<exists>m'. checkPercentages (participantIds dto) pcts [] = Inr m')" by simp
      then have "spec_percentageViolation (participantIds dto) pcts"
        unfolding checkPercentages_Inr_iff spec_percentageViolation_def
        by (auto simp: not_le)
      then show ?thesis
        using Some False Inl by (simp add: validatePercentageSplit_def)
    next
      case (Inr m')
      then have m': "m' = map (\<lambda>e. (pct_participantId e, percentage e)) pcts"
        using checkPercentages_result by fastforce
      have vals: "reduce_sum id (Map_values m') = sum_list (map percentage pcts)"
        by (simp add: m' reduce_sum_eq Map_values_def comp_def)
      have has: "Map_has m' p \<longleftrightarrow> p \<in> pct_participantId ` set pcts" for p
        by (force simp: Map_has_iff m')
      have ok: "(\<forall>e \<in> set pcts. pct_participantId e \<in> set (participantIds dto)
                   \<and> 0 \<le> percentage e \<and> percentage e \<le> 100)
                \<and> distinct (map pct_participantId pcts)"
        using Inr checkPercentages_Inr_iff [of "participantIds dto" pcts "[]"] by auto
      have empty: "pcts = [] \<Longrightarrow> \<bar>sum_list (map percentage pcts) - 100\<bar> > 1 / 100" by simp
      have "validatePercentageSplit dto = Inr () \<longleftrightarrow>
              pcts \<noteq> [] \<and> \<not> \<bar>sum_list (map percentage pcts) - 100\<bar> > 1 / 100 \<and>
              (\<forall>p \<in> set (participantIds dto). p \<in> pct_participantId ` set pcts)"
        using Some False Inr
        by (simp add: validatePercentageSplit_def Let_def vals checkAllAssigned_iff has)
      also have "\<dots> \<longleftrightarrow> \<not> spec_percentageViolation (participantIds dto) pcts"
        using ok empty unfolding spec_percentageViolation_def by (auto simp: not_le not_less)
      finally show ?thesis using Some False by simp
    qed
  qed
qed

subsection \<open>Reordering the participants\<close>

lemma calculateSplit_equal_three_swapped:
  "calculateSplit request_equal_three_swapped = Inr result_equal_three_swapped"
  by code_simp

lemma strategyShares_map: "strategyShares dto = map (shareOf dto) (participantIds dto)"
  by (cases "splitType dto")
     (simp_all add: strategyShares_def shareOf_def calculateEqualSplit_def
        calculateItemizedSplit_def calculatePercentageSplit_def calculateCustomSplit_def Let_def)

lemma buildShare_reorder:
  "length ids' = length (participantIds dto) \<Longrightarrow>
     buildShare (dto\<lparr>participantIds := ids'\<rparr>) d p sub its = buildShare dto d p sub its"
  by (simp add: buildShare_def tipDistributionOr_def)

lemma addItemShare_cong:
  assumes "map_of (fst st1) = map_of (fst st2)" and "map_of (snd st1) = map_of (snd st2)"
  shows "map_of (fst (addItemShare nm s st1 q)) = map_of (fst (addItemShare nm s st2 q)) \<and>
         map_of (snd (addItemShare nm s st1 q)) = map_of (snd (addItemShare nm s st2 q))"
  using assms
  by (cases st1; cases st2) (simp add: addItemShare_def update_conv' getOrZero_def getOrEmpty_def)

lemma foldl_addItemShare_cong:
  assumes "map_of (fst st1) = map_of (fst st2)" and "map_of (snd st1) = map_of (snd st2)"
  shows "map_of (fst (foldl (addItemShare nm s) st1 qs))
           = map_of (fst (foldl (addItemShare nm s) st2 qs)) \<and>
         map_of (snd (foldl (addItemShare nm s) st1 qs))
           = map_of (snd (foldl (addItemShare nm s) st2 qs))"
  using assms
proof (induction qs arbitrary: st1 st2)
  case Nil
  then show ?case by simp
next
  case (Cons q qs)
  from addItemShare_cong [OF Cons.prems, of nm s q]
  have step: "map_of (fst (addItemShare nm s st1 q)) = map_of (fst (addItemShare nm s st2 q))"
    "map_of (snd (addItemShare nm s st1 q)) = map_of (snd (addItemShare nm s st2 q))"
    by simp_all
  from Cons.IH [OF step] show ?case by simp
qed

lemma foldl_distributeItem_cong:
  assumes "map_of (fst st1) = map_of (fst st2)" and "map_of (snd st1) = map_of (snd st2)"
  shows "map_of (fst (foldl distributeItem st1 its)) = map_of (fst (foldl distributeItem st2 its)) \<and>
         map_of (snd (foldl distributeItem st1 its)) = map_of (snd (foldl distributeItem st2 its))"
  using assms
proof (induction its arbitrary: st1 st2)
  case Nil
  then show ?case by simp
next
  case (Cons it its)
  have step: "map_of (fst (distributeItem st1 it)) = map_of (fst (distributeItem st2 it))"
    "map_of (snd (distributeItem st1 it)) = map_of (snd (distributeItem st2 it))"
    using foldl_addItemShare_cong [OF Cons.prems] by (simp_all add: distributeItem_def Let_def)
  from Cons.IH [OF step] show ?case by simp
qed

lemma initParticipants_reorder:
  assumes "set ids' = set ids"
  shows "map_of (fst (initParticipants ids')) = map_of (fst (initParticipants ids))"
    and "map_of (snd (initParticipants ids')) = map_of (snd (initParticipants ids))"
  using assms by (auto simp: initParticipants_map_of fun_eq_iff)

lemma shareOf_reorder:
  assumes "mset ids' = mset (participantIds dto)"
  shows "shareOf (dto\<lparr>participantIds := ids'\<rparr>) p = shareOf dto p"
proof -
  have len: "length ids' = length (participantIds dto)" using assms by (rule mset_eq_length)
  have st: "set ids' = set (participantIds dto)" using assms by (rule mset_eq_setD)
  note fd = foldl_distributeItem_cong [OF initParticipants_reorder [OF st]]
  show ?thesis
  proof (cases "splitType dto")
    case ITEMIZED
    then show ?thesis
      using fd [of "case items dto of None \<Rightarrow> [] | Some l \<Rightarrow> l"]
      by (simp add: shareOf_def buildShare_reorder [OF len] Let_def getOrZero_def getOrEmpty_def)
  qed (simp_all add: shareOf_def buildShare_reorder [OF len] len Let_def)
qed

lemma strategyShares_reorder:
  assumes "mset ids' = mset (participantIds dto)"
  shows "strategyShares (dto\<lparr>participantIds := ids'\<rparr>) = map (shareOf dto) ids'"
  by (simp add: strategyShares_map shareOf_reorder [OF assms])

text \<open>Validation does not depend on the order of the participants.\<close>

lemma checkItemParticipants_reorder:
  "set ids' = set ids \<Longrightarrow> checkItemParticipants ids' nm ps = checkItemParticipants ids nm ps"
  by (induction ps) simp_all

lemma checkItem_reorder:
  assumes "set ids' = set ids"
  shows "checkItem ids' n item = checkItem ids n item"
  by (simp add: checkItem_def checkItemParticipants_reorder [OF assms])

lemma checkItems_reorder:
  assumes "set ids' = set ids"
  shows "checkItems ids' n its = checkItems ids n its"
  by (induction its arbitrary: n)
    (simp_all add: checkItem_reorder [OF assms] split: sum.splits)

lemma checkCustomAmounts_reorder:
  "set ids' = set ids \<Longrightarrow> checkCustomAmounts ids' cas m = checkCustomAmounts ids cas m"
  by (induction cas arbitrary: m) simp_all

lemma checkAllAssigned_reorder:
  "set ids' = set ids \<Longrightarrow> checkAllAssigned err m ids = Inr () \<Longrightarrow> checkAllAssigned err m ids' = Inr ()"
  by (simp add: checkAllAssigned_iff)

lemma validate_reorder:
  assumes "mset ids' = mset (participantIds dto)" and "validate dto = Inr ()"
  shows "validate (dto\<lparr>participantIds := ids'\<rparr>) = Inr ()"
proof -
  have len: "length ids' = length (participantIds dto)" using assms(1) by (rule mset_eq_length)
  have st: "set ids' = set (participantIds dto)" using assms(1) by (rule mset_eq_setD)
  from assms(2) have b: "validateBasicRequirements dto = Inr ()"
    by (auto simp: validate_def split: sum.splits)
  have "ids' = [] \<longleftrightarrow> participantIds dto = []" using len by auto
  then have "validateBasicRequirements (dto\<lparr>participantIds := ids'\<rparr>)
               = validateBasicRequirements dto"
    by (simp add: validateBasicRequirements_def len st)
  with b have b': "validateBasicRequirements (dto\<lparr>participantIds := ids'\<rparr>) = Inr ()"
    by simp
  from assms(2) b have s: "(case splitType dto of
             EQUAL \<Rightarrow> validateEqualSplit dto
           | ITEMIZED \<Rightarrow> validateItemizedSplit dto
           | PERCENTAGE \<Rightarrow> validatePercentageSplit dto
           | CUSTOM \<Rightarrow> validateCustomSplit dto) = Inr ()"
    by (simp add: validate_def)
  show ?thesis
  proof (cases "splitType dto")
    case EQUAL
    with s b' show ?thesis by (simp add: validate_def validateEqualSplit_def)
  next
    case ITEMIZED
    have "validateItemizedSplit (dto\<lparr>participantIds := ids'\<rparr>) = validateItemizedSplit dto"
      by (cases "items dto")
        (simp_all add: validateItemizedSplit_def checkItems_reorder [OF st] split: sum.splits)
    with ITEMIZED s b' show ?thesis
      by (simp add: validate_def)
  next
    case PERCENTAGE
    with s have "validatePercentageSplit dto = Inr ()" by simp
    then have "validatePercentageSplit (dto\<lparr>participantIds := ids'\<rparr>) = Inr ()"
      unfolding validatePercentageSplit_iff by (simp add: spec_percentageViolation_def st)
    with PERCENTAGE b' show ?thesis by (simp add: validate_def)
  next
    case CUSTOM
    with s have v: "validateCustomSplit dto = Inr ()" by simp
    have "validateCustomSplit (dto\<lparr>participantIds := ids'\<rparr>) = Inr ()"
    proof (cases "customAmounts dto")
      case None
      with v show ?thesis by (simp add: validateCustomSplit_def)
    next
      case (Some cas)
      show ?thesis
      proof (cases "checkCustomAmounts (participantIds dto) cas []")
        case (Inl e)
        with v Some show ?thesis
          by (simp add: validateCustomSplit_def split: if_splits)
      next
        case (Inr m)
        with v Some have g: "length cas \<noteq> 0" "\<not> (items dto \<noteq> None \<or> percentages dto \<noteq> None)"
          "\<not> \<bar>reduce_sum id (Map_values m) - subtotal dto\<bar> > 1 / 100"
          "checkAllAssigned CustomMissingParticipant m (participantIds dto) = Inr ()"
          by (simp_all add: validateCustomSplit_def Let_def split: if_splits)
        from checkAllAssigned_reorder [OF st g(4)] g(1,2,3) Some Inr show ?thesis
          by (simp add: validateCustomSplit_def Let_def checkCustomAmounts_reorder [OF st])
      qed
    qed
    with CUSTOM b' show ?thesis by (simp add: validate_def)
  qed
qed

lemma reconciled_share_cases:
  assumes "participantIds dto \<noteq> []" and "i < length (strategyShares dto)"
  shows "\<exists>t. reconciledShares dto ! i = (strategyShares dto ! i)\<lparr>share_total := t\<rparr> \<and>
           (t = share_total (strategyShares dto ! i) \<or>
            roundingAdjustmentOf dto \<noteq> 0 \<and>
            (\<forall>s \<in> set (strategyShares dto). share_total s \<le> share_total (strategyShares dto ! i)))"
proof (cases "\<bar>roundingAdjustmentOf dto\<bar> > 1 / 1000 \<and> i = findMaxIndex (strategyShares dto)")
  case False
  then have "reconciledShares dto ! i = strategyShares dto ! i"
    by (auto simp: reconciledShares_nth [OF assms])
  then show ?thesis
    by (intro exI [of _ "share_total (strategyShares dto ! i)"]) simp
next
  case True
  then have nz: "roundingAdjustmentOf dto \<noteq> 0" by auto
  have "\<forall>j<length (strategyShares dto).
          share_total (strategyShares dto ! j) \<le> share_total (strategyShares dto ! i)"
    using findMaxIndex_spec(2) [OF strategyShares_nonempty [OF assms(1)]] True by simp
  then have mx: "\<forall>s \<in> set (strategyShares dto). share_total s \<le> share_total (strategyShares dto ! i)"
    by (auto simp: in_set_conv_nth)
  from True have c: "(\<bar>roundingAdjustmentOf dto\<bar> > 1 / 1000
                         \<and> i = findMaxIndex (strategyShares dto)) = True" by simp
  have "reconciledShares dto ! i = (strategyShares dto ! i)
          \<lparr>share_total := share_total (strategyShares dto ! i) - roundingAdjustmentOf dto\<rparr>"
    by (simp only: reconciledShares_nth [OF assms] c if_True)
  with nz mx show ?thesis by blast
qed

subsection \<open>Claims\<close>

text \<open>
  Claim C3, as stated: for every value, negative ones included, the rounding helper gives
  \<open>sign(v) * floor(|v| * 100 + 0.5) / 100\<close> (ties away from zero).  It fails at the
  negative tie \<open>v = -0.125\<close>: \<^verbatim>\<open>Math.round(-12.5)\<close> is \<open>-12\<close>, so the helper returns
  \<open>-0.12\<close>, where the formula gives \<open>-0.13\<close>.
\<close>

theorem round2_away_from_zero_counterexample:
  "round2 (- 1 / 8) \<noteq> sgn (- 1 / 8) * of_int \<lfloor>\<bar>- 1 / 8 :: real\<bar> * 100 + 1 / 2\<rfloor> / 100"
  by (simp add: round2_def Math_round_def)

text \<open>
  Claim C3, amended: the rounding helper returns a whole number of cents (for
  \<open>|v| \<le> 10 ^ 12\<close>, where doubles still tell cents apart) that differs from
  its argument by at most half a cent, up to the rounding error of the double product
  \<open>v * 100\<close> (less than \<open>(|v| + 1) / 2 ^ 50\<close>).  An exact half-cent of the scaled value
  is rounded up, towards plus infinity, for negative values as for positive ones: when
  \<open>v * 100 = m + 1/2\<close> for an integer \<open>m\<close> (and \<open>|v| \<le> 10 ^ 12\<close>, where the double product
  is exact), the result is \<open>(m + 1) / 100\<close>; so \<open>round(-0.125) = -0.12\<close>, not \<open>-0.13\<close>.
\<close>

theorem round2_ties_up:
  "(\<bar>v\<bar> \<le> 10 ^ 12 \<longrightarrow> round2 (round2 v) = round2 v) \<and>
   \<bar>round2 v - v\<bar> \<le> 1 / 200 + (\<bar>v\<bar> + 1) / 2 ^ 50 \<and>
   (\<forall>m :: int. \<bar>v\<bar> \<le> 10 ^ 12 \<and> v * 100 = of_int m + 1 / 2 \<longrightarrow>
      round2 v = of_int (m + 1) / 100)"
proof (intro conjI allI impI)
  show "round2 (round2 v) = round2 v" by (rule round2_idem)
  have "\<bar>round2 v - v\<bar> \<le> 1 / 200"
    using round2_upper [of v] round2_lower [of v] by linarith
  moreover have "0 \<le> (\<bar>v\<bar> + 1) / 2 ^ 50" by simp
  ultimately show "\<bar>round2 v - v\<bar> \<le> 1 / 200 + (\<bar>v\<bar> + 1) / 2 ^ 50" by linarith
  show "round2 v = of_int (m + 1) / 100"
    if "\<bar>v\<bar> \<le> 10 ^ 12 \<and> v * 100 = of_int m + 1 / 2" for m :: int
  proof -
    have "\<lfloor>real_of_int m + 1 / 2 + 1 / 2\<rfloor> = m + 1" by linarith
    with that show ?thesis by (simp add: round2_floor)
  qed
qed

theorem round2_ties_up_witness:
  "\<bar>- 1 / 8 :: real\<bar> \<le> 10 ^ 12 \<and> (- 1 / 8 :: real) * 100 = of_int (- 13) + 1 / 2 \<and>
   round2 (- 1 / 8) = - 12 / 100 \<and> round2 (round2 (- 1 / 8)) = round2 (- 1 / 8)"
proof -
  have h: "\<bar>- 1 / 8 :: real\<bar> \<le> 10 ^ 12 \<and> (- 1 / 8 :: real) * 100 = of_int (- 13) + 1 / 2"
    by simp
  from round2_ties_up [of "- 1 / 8", THEN conjunct2, THEN conjunct2, rule_format, OF h]
  have t: "round2 (- 1 / 8) = of_int (- 13 + 1) / 100" .
  from round2_ties_up [of "- 1 / 8", THEN conjunct1, rule_format, OF conjunct1 [OF h]]
  have i: "round2 (round2 (- 1 / 8)) = round2 (- 1 / 8)" .
  from h t i show ?thesis by (simp only: simp_thms) (use t in simp)
qed

text \<open>
  Claim C1: every request that passes the precondition checks makes \<^verbatim>\<open>calculateSplit\<close>
  return a result whose totals reconcile.  The engine does not achieve this: its own result
  check (\<^verbatim>\<open>validateResult\<close>, ``within 1 cent per participant'') throws on requests
  that pass \<^verbatim>\<open>validate\<close>.  For an equal split of a subtotal of 0.01 with a tax of 1
  among three participants every subtotal rounds to 0, every tax share is 0 and the
  adjustment is \<open>-1.01\<close>; for the ordinary bill of 194.93 + 10.33 + 23.51 between two each
  share is 97.47 + 5.17 + 11.76 and the adjustment 0.03 exceeds 0.02.
\<close>

theorem result_check_rejects_valid_request:
  "validate request_cent_subtotal = Inr () \<and>
   calculateSplit request_cent_subtotal = Inl ResultAdjustmentTooLarge \<and>
   validate request_ordinary_bill = Inr () \<and>
   calculateSplit request_ordinary_bill = Inl ResultAdjustmentTooLarge"
  by code_simp

text \<open>
  Claim C2, as stated: every share of a returned result has
  \<open>total = subtotal + tax + tip\<close>, the share selected for the rounding correction included.
  It fails for the equal split of 100 among three participants: the first share is
  returned with subtotal 33.33, tax 0, tip 0 and total 33.34.
\<close>

theorem share_total_counterexample:
  "calculateSplit request_equal_three = Inr result_equal_three \<and>
   share_total (shares result_equal_three ! 0) \<noteq>
     share_subtotal (shares result_equal_three ! 0) + share_tax (shares result_equal_three ! 0)
       + share_tip (shares result_equal_three ! 0)"
  using calculateSplit_equal_three by (simp add: result_equal_three_def)

text \<open>
  Claim C2, amended: in every returned result, every share other than the one selected for
  the rounding correction has \<open>total = subtotal + tax + tip\<close>; the selected share (the
  first one with the largest total, when \<open>|roundingAdjustment| > 0.001\<close>) has
  \<open>total = subtotal + tax + tip - roundingAdjustment\<close>.
\<close>

theorem share_total_decomposition:
  assumes "calculateSplit dto = Inr res" and "i < length (shares res)"
  shows "share_total (shares res ! i) =
           share_subtotal (shares res ! i) + share_tax (shares res ! i) + share_tip (shares res ! i)
           - (if \<bar>roundingAdjustment res\<bar> > 1 / 1000 \<and> i = findMaxIndex (strategyShares dto)
              then roundingAdjustment res else 0)"
proof -
  note r = calculateSplit_InrD [OF assms(1)]
  have ne: "participantIds dto \<noteq> []" by (rule validate_basic(1) [OF r(1)])
  have i: "i < length (strategyShares dto)"
    using assms(2) by (simp add: r(3) reconciledShares_length)
  then have "strategyShares dto ! i \<in> set (strategyShares dto)" by simp
  from strategyShares_cents(5) [OF this] show ?thesis
    by (auto simp: r(3,4) reconciledShares_nth [OF ne i])
qed

theorem share_total_decomposition_witness:
  "calculateSplit request_equal_three = Inr result_equal_three \<and>
   share_total (shares result_equal_three ! 0) = 3333 / 100 + 0 + 0 - (- 1 / 100) \<and>
   share_total (shares result_equal_three ! 1) = 3333 / 100 + 0 + 0"
proof -
  note c = calculateSplit_equal_three
  have l: "0 < length (shares result_equal_three)" "1 < length (shares result_equal_three)"
    by (simp_all add: result_equal_three_def)
  from share_total_decomposition [OF c l(1)] share_total_decomposition [OF c l(2)] c
  show ?thesis
    unfolding findMaxIndex_equal_three by (simp add: result_equal_three_def)
qed



text \<open>
  Claim C5, as stated: every monetary field of a returned result, \<open>originalSubtotal\<close>,
  \<open>originalTax\<close> and \<open>originalTip\<close> included, is a fixed point of the rounding function.
  It fails for an equal split of 10.004 for one participant: the result echoes
  \<open>originalSubtotal = 10.004\<close>, which rounds to 10.
\<close>

theorem rounding_closure_counterexample:
  "calculateSplit request_three_decimals = Inr result_three_decimals \<and>
   round2 (originalSubtotal result_three_decimals) \<noteq> originalSubtotal result_three_decimals"
proof -
  have "round2 (10004 / 1000) = 10" by (simp add: round2_def Math_round_def)
  then show ?thesis
    using calculateSplit_three_decimals by (simp add: result_three_decimals_def)
qed

text \<open>
  Claim C5, amended: in every returned result each share's subtotal, tax, tip and total,
  \<open>grandTotal\<close> and \<open>roundingAdjustment\<close> are fixed points of the rounding function;
  \<open>originalSubtotal\<close>, \<open>originalTax\<close> and \<open>originalTip\<close> are the request's subtotal, tax
  and tip (0 when absent) unchanged, not rounded.
\<close>

theorem rounding_closure:
  assumes "calculateSplit dto = Inr res"
  shows "(\<forall>sh \<in> set (shares res).
            round2 (share_subtotal sh) = share_subtotal sh \<and>
            round2 (share_tax sh) = share_tax sh \<and>
            round2 (share_tip sh) = share_tip sh \<and>
            round2 (share_total sh) = share_total sh) \<and>
         round2 (grandTotal res) = grandTotal res \<and>
         round2 (roundingAdjustment res) = roundingAdjustment res \<and>
         originalSubtotal res = subtotal dto \<and>
         originalTax res = orZero (tax dto) \<and>
         originalTip res = orZero (tip dto)"
proof -
  note r = calculateSplit_InrD [OF assms(1)]
  have ne: "participantIds dto \<noteq> []" by (rule validate_basic(1) [OF r(1)])
  have "round2 (share_subtotal sh) = share_subtotal sh \<and>
            round2 (share_tax sh) = share_tax sh \<and>
            round2 (share_tip sh) = share_tip sh \<and>
            round2 (share_total sh) = share_total sh" if "sh \<in> set (shares res)" for sh
  proof -
    from that obtain i where i: "i < length (strategyShares dto)" and sh: "sh = reconciledShares dto ! i"
      unfolding r(3) in_set_conv_nth reconciledShares_length by blast
    have mem: "strategyShares dto ! i \<in> set (strategyShares dto)" using i by simp
    note c = strategyShares_cents [OF mem]
    show ?thesis
      unfolding sh reconciledShares_nth [OF ne i]
      using c cents_diff [OF c(4) roundingAdjustment_cents [of dto]] by auto
  qed
  then show ?thesis
    by (simp add: r round2_idem roundingAdjustment_cents)
qed

theorem rounding_closure_witness:
  "calculateSplit request_equal_three = Inr result_equal_three \<and>
   round2 (share_total (shares result_equal_three ! 0)) = 3334 / 100 \<and>
   round2 (grandTotal result_equal_three) = 100 \<and>
   round2 (roundingAdjustment result_equal_three) = - 1 / 100 \<and>
   originalSubtotal result_equal_three = 100"
proof -
  note c = calculateSplit_equal_three
  have m: "shares result_equal_three ! 0 \<in> set (shares result_equal_three)"
    by (simp add: result_equal_three_def)
  from rounding_closure [OF c] m
  have "round2 (share_total (shares result_equal_three ! 0))
          = share_total (shares result_equal_three ! 0) \<and>
        round2 (grandTotal result_equal_three) = grandTotal result_equal_three \<and>
        round2 (roundingAdjustment result_equal_three) = roundingAdjustment result_equal_three \<and>
        originalSubtotal result_equal_three = subtotal request_equal_three"
    by blast
  then show ?thesis
    using c by (simp add: result_equal_three_def request_equal_three_def)
qed

text \<open>
  Claim C10: a returned result has one share per entry of \<open>participantIds\<close>, in the same
  order, under all four strategies; an Itemized participant assigned to no item has a share
  with subtotal 0 and an empty items list.
\<close>

theorem one_share_per_participant:
  assumes "calculateSplit dto = Inr res"
  shows "length (shares res) = length (participantIds dto) \<and>
         (\<forall>i<length (participantIds dto).
            share_participantId (shares res ! i) = participantIds dto ! i) \<and>
         (\<forall>its i. splitType dto = ITEMIZED \<and> items dto = Some its \<and>
            i < length (participantIds dto) \<and>
            (\<forall>item \<in> set its. participantIds dto ! i \<notin> set (item_participantIds item))
            \<longrightarrow> share_subtotal (shares res ! i) = 0 \<and> share_items (shares res ! i) = Some [])"
proof (intro conjI allI impI)
  note r = calculateSplit_InrD [OF assms(1)]
  have ne: "participantIds dto \<noteq> []" by (rule validate_basic(1) [OF r(1)])
  have ids: "map share_participantId (shares res) = participantIds dto"
  proof -
    have "map share_participantId (reconciledShares dto)
            = map share_participantId (strategyShares dto)"
      by (rule nth_equalityI) (simp_all add: reconciledShares_length reconciledShares_nth [OF ne])
    then show ?thesis by (simp add: r(3) strategyShares_ids)
  qed
  then show len: "length (shares res) = length (participantIds dto)" by (metis length_map)
  show "share_participantId (shares res ! i) = participantIds dto ! i"
    if "i < length (participantIds dto)" for i
    using that len nth_map [of i "shares res" share_participantId] ids by simp
  show "share_subtotal (shares res ! i) = 0" "share_items (shares res ! i) = Some []"
    if h: "splitType dto = ITEMIZED \<and> items dto = Some its \<and>
            i < length (participantIds dto) \<and>
            (\<forall>item \<in> set its. participantIds dto ! i \<notin> set (item_participantIds item))"
    for its i
  proof -
    from h have i: "i < length (strategyShares dto)" by (simp add: strategyShares_length)
    from h have s: "strategyShares dto = calculateItemizedSplit dto"
      by (simp add: strategyShares_def)
    from h have u: "share_subtotal (calculateItemizedSplit dto ! i) = 0"
      "share_items (calculateItemizedSplit dto ! i) = Some []"
      using itemized_unassigned [of dto its i] by simp_all
    show "share_subtotal (shares res ! i) = 0" "share_items (shares res ! i) = Some []"
      using u by (auto simp: r(3) reconciledShares_nth [OF ne i] s)
  qed
qed

theorem one_share_per_participant_witness:
  "calculateSplit request_itemized_idle = Inr result_itemized_idle \<and>
   length (shares result_itemized_idle) = 3 \<and>
   share_participantId (shares result_itemized_idle ! 2) = ''u3'' \<and>
   share_subtotal (shares result_itemized_idle ! 2) = 0 \<and>
   share_items (shares result_itemized_idle ! 2) = Some []"
proof -
  note c = calculateSplit_itemized_idle
  let ?its = "[\<lparr>item_name = ''A'', item_price = 30, item_participantIds = [''u1'']\<rparr>,
               \<lparr>item_name = ''B'', item_price = 20, item_participantIds = [''u2'']\<rparr>]"
  have h: "splitType request_itemized_idle = ITEMIZED \<and>
           items request_itemized_idle = Some ?its \<and>
           2 < length (participantIds request_itemized_idle) \<and>
           (\<forall>item \<in> set ?its.
              participantIds request_itemized_idle ! 2 \<notin> set (item_participantIds item))"
    by (simp add: request_itemized_idle_def)
  have n: "length (participantIds request_itemized_idle) = 3"
    "participantIds request_itemized_idle ! 2 = ''u3''"
    by (simp_all add: request_itemized_idle_def)
  from one_share_per_participant [OF c] h
  have "length (shares result_itemized_idle) = length (participantIds request_itemized_idle) \<and>
        share_participantId (shares result_itemized_idle ! 2) = participantIds request_itemized_idle ! 2 \<and>
        share_subtotal (shares result_itemized_idle ! 2) = 0 \<and>
        share_items (shares result_itemized_idle ! 2) = Some []"
    by blast
  then show ?thesis using c n by simp
qed

text \<open>
  Claim C7, as stated: since every tax share is the rounded proportional amount, the ratio
  of two participants' tax shares approximates the ratio of their subtotals within rounding
  tolerance.  It fails for a custom split of 100 into 99 and 1 with a tax of 0.60: the tax
  shares are 0.59 and 0.01, ratio 59, against a subtotal ratio of 99.
\<close>

theorem tax_ratio_counterexample:
  "calculateSplit request_uneven_tax = Inr result_uneven_tax \<and>
   share_subtotal (shares result_uneven_tax ! 1) = 1 \<and>
   share_subtotal (shares result_uneven_tax ! 0) / share_subtotal (shares result_uneven_tax ! 1) = 99 \<and>
   share_tax (shares result_uneven_tax ! 0) / share_tax (shares result_uneven_tax ! 1) = 59"
  using calculateSplit_uneven_tax by (simp add: result_uneven_tax_def)

text \<open>
  Claim C7, amended: for every participant, under every strategy, the tax share is a whole
  number of cents (for \<open>|q| \<le> 10 ^ 12\<close>, where doubles still tell cents apart), is 0 when
  the tax or the subtotal is 0, and otherwise differs from
  \<open>q = tax * participantSubtotal / subtotal\<close> by at most half a cent, up to the rounding
  error of the double operations (less than \<open>(|q| + 1) / 2 ^ 50\<close>).  This holds of the share
  each strategy builds for the participant and of the participant's share in every returned
  result.  The ratio of two tax shares need not approximate the ratio of the subtotals.
\<close>

theorem tax_share:
  assumes "i < length (participantIds dto)"
    and "sh = strategyShares dto ! i \<or> (\<exists>res. calculateSplit dto = Inr res \<and> sh = shares res ! i)"
  shows "share_participantId sh = participantIds dto ! i \<and>
         (\<bar>orZero (tax dto) * share_subtotal sh / subtotal dto\<bar> \<le> 10 ^ 12 \<longrightarrow>
            round2 (share_tax sh) = share_tax sh) \<and>
         (orZero (tax dto) = 0 \<or> subtotal dto = 0 \<longrightarrow> share_tax sh = 0) \<and>
         (subtotal dto \<noteq> 0 \<longrightarrow>
            \<bar>share_tax sh - orZero (tax dto) * share_subtotal sh / subtotal dto\<bar>
              \<le> 1 / 200 + (\<bar>orZero (tax dto) * share_subtotal sh / subtotal dto\<bar> + 1) / 2 ^ 50)"
proof -
  let ?s0 = "strategyShares dto ! i"
  have i: "i < length (strategyShares dto)" using assms(1) by (simp add: strategyShares_length)
  then have mem: "?s0 \<in> set (strategyShares dto)" by simp
  have same: "share_participantId sh = share_participantId ?s0 \<and>
              share_subtotal sh = share_subtotal ?s0 \<and> share_tax sh = share_tax ?s0"
    using assms(2) result_share_nth [OF _ assms(1)] by auto
  have id: "share_participantId ?s0 = participantIds dto ! i"
    using nth_map [OF i, of share_participantId] by (simp add: strategyShares_ids)
  have tx: "share_tax ?s0 = spec_taxShare dto (share_subtotal ?s0)"
    by (rule strategyShares_tax [OF mem])
  have zero: "share_tax ?s0 = 0" if "orZero (tax dto) = 0 \<or> subtotal dto = 0"
    using that by (auto simp: tx spec_taxShare_def)
  have near: "\<bar>share_tax ?s0 - orZero (tax dto) * share_subtotal ?s0 / subtotal dto\<bar>
              \<le> 1 / 200 + (\<bar>orZero (tax dto) * share_subtotal ?s0 / subtotal dto\<bar> + 1) / 2 ^ 50"
    if nz: "subtotal dto \<noteq> 0"
  proof -
    have "0 \<le> (\<bar>orZero (tax dto) * share_subtotal ?s0 / subtotal dto\<bar> + 1) / 2 ^ 50" by simp
    with taxShare_error [OF nz, of "share_subtotal ?s0"] show ?thesis
      unfolding tx by linarith
  qed
  show ?thesis
    using same id strategyShares_cents(2) [OF mem] zero near by simp
qed

theorem tax_share_witness:
  "(1 :: nat) < length (participantIds request_uneven_tax) \<and>
   calculateSplit request_uneven_tax = Inr result_uneven_tax \<and>
   subtotal request_uneven_tax \<noteq> 0 \<and>
   share_participantId (shares result_uneven_tax ! 1) = ''y'' \<and>
   \<bar>share_tax (shares result_uneven_tax ! 1) - (6 / 10) * 1 / 100\<bar>
     \<le> 1 / 200 + (\<bar>(6 / 10) * 1 / 100 :: real\<bar> + 1) / 2 ^ 50"
proof -
  have l: "(1 :: nat) < length (participantIds request_uneven_tax)"
    by (simp add: request_uneven_tax_def)
  note c = calculateSplit_uneven_tax
  have s: "subtotal request_uneven_tax = 100" "orZero (tax request_uneven_tax) = 6 / 10"
    "participantIds request_uneven_tax ! 1 = ''y''"
    "share_subtotal (shares result_uneven_tax ! 1) = 1"
    by (simp_all add: request_uneven_tax_def result_uneven_tax_def orZero_def)
  have "shares result_uneven_tax ! 1 = strategyShares request_uneven_tax ! 1 \<or>
        (\<exists>res. calculateSplit request_uneven_tax = Inr res \<and>
               shares result_uneven_tax ! 1 = shares res ! 1)"
    using c by blast
  from tax_share [OF l this]
  have "share_participantId (shares result_uneven_tax ! 1) = ''y'' \<and>
        \<bar>share_tax (shares result_uneven_tax ! 1) - (6 / 10) * 1 / 100\<bar>
          \<le> 1 / 200 + (\<bar>(6 / 10) * 1 / 100 :: real\<bar> + 1) / 2 ^ 50"
    unfolding s by simp
  with l c s show ?thesis by simp
qed

text \<open>
  Claim C8, as stated: a Percentage request that passes the basic checks is rejected exactly
  when one of the five percentage rules is violated.  It fails for a request whose entries
  satisfy all five rules and which carries an \<^verbatim>\<open>items\<close> array (here an empty one):
  \<^verbatim>\<open>validatePercentageSplit\<close> throws on the extraneous payload.
\<close>

theorem percentage_validation_counterexample:
  "splitType request_percentage_with_items = PERCENTAGE \<and>
   validateBasicRequirements request_percentage_with_items = Inr () \<and>
   percentages request_percentage_with_items
     = Some [\<lparr>pct_participantId = ''a'', percentage = 100\<rparr>] \<and>
   \<not> spec_percentageViolation (participantIds request_percentage_with_items)
       [\<lparr>pct_participantId = ''a'', percentage = 100\<rparr>] \<and>
   validate request_percentage_with_items = Inl PercentageExtraPayload"
  by (simp add: request_percentage_with_items_def validateBasicRequirements_def validate_def
        validatePercentageSplit_def spec_percentageViolation_def orZero_def Let_def)

text \<open>
  Claim C8, amended: a Percentage request that passes the basic checks is rejected when it
  has no percentages payload, or carries an items or customAmounts payload, or some
  participant has no entry, some entry names a participant outside the request, two entries
  name the same participant, some percentage lies outside \<open>[0, 100]\<close>, or the sum of the
  percentages differs from 100 by more than 0.01; it is accepted when none of these holds.
  The comparison with 0.01 is made on the double sum of the entries: for at most 1000
  entries it is decided as stated when the exact sum is further than \<open>1 / 10 ^ 9\<close> from the
  boundary, and nothing is said of sums closer to it.
\<close>

theorem percentage_validation:
  assumes "splitType dto = PERCENTAGE" and "validateBasicRequirements dto = Inr ()"
  shows "(percentages dto = None \<longrightarrow> validate dto \<noteq> Inr ()) \<and>
         (\<forall>pcts. percentages dto = Some pcts \<and> length pcts \<le> 1000 \<longrightarrow>
            (items dto \<noteq> None \<or> customAmounts dto \<noteq> None \<or>
             (\<exists>p \<in> set (participantIds dto). p \<notin> pct_participantId ` set pcts) \<or>
             (\<exists>e \<in> set pcts. pct_participantId e \<notin> set (participantIds dto)) \<or>
             \<not> distinct (map pct_participantId pcts) \<or>
             (\<exists>e \<in> set pcts. percentage e < 0 \<or> percentage e > 100) \<or>
             \<bar>sum_list (map percentage pcts) - 100\<bar> > 1 / 100 + 1 / 10 ^ 9
             \<longrightarrow> validate dto \<noteq> Inr ()) \<and>
            (items dto = None \<and> customAmounts dto = None \<and>
             (\<forall>p \<in> set (participantIds dto). p \<in> pct_participantId ` set pcts) \<and>
             (\<forall>e \<in> set pcts. pct_participantId e \<in> set (participantIds dto)) \<and>
             distinct (map pct_participantId pcts) \<and>
             (\<forall>e \<in> set pcts. 0 \<le> percentage e \<and> percentage e \<le> 100) \<and>
             \<bar>sum_list (map percentage pcts) - 100\<bar> \<le> 1 / 100 - 1 / 10 ^ 9
             \<longrightarrow> validate dto = Inr ()))"
proof -
  have v: "validate dto = Inr () \<longleftrightarrow>
     (\<exists>pcts. percentages dto = Some pcts \<and> items dto = None \<and> customAmounts dto = None \<and>
        \<not> spec_percentageViolation (participantIds dto) pcts)"
    using assms by (simp add: validate_def validatePercentageSplit_iff)
  have none: "percentages dto = None \<longrightarrow> validate dto \<noteq> Inr ()"
    unfolding v by simp
  have rej: "validate dto \<noteq> Inr ()"
    if "percentages dto = Some pcts"
      and "items dto \<noteq> None \<or> customAmounts dto \<noteq> None \<or>
             (\<exists>p \<in> set (participantIds dto). p \<notin> pct_participantId ` set pcts) \<or>
             (\<exists>e \<in> set pcts. pct_participantId e \<notin> set (participantIds dto)) \<or>
             \<not> distinct (map pct_participantId pcts) \<or>
             (\<exists>e \<in> set pcts. percentage e < 0 \<or> percentage e > 100) \<or>
             \<bar>sum_list (map percentage pcts) - 100\<bar> > 1 / 100 + 1 / 10 ^ 9" for pcts
  proof -
    have "\<bar>sum_list (map percentage pcts) - 100\<bar> > 1 / 100 + 1 / 10 ^ 9
            \<Longrightarrow> \<bar>sum_list (map percentage pcts) - 100\<bar> > 1 / 100" by simp
    with that(2) have "items dto \<noteq> None \<or> customAmounts dto \<noteq> None \<or>
        spec_percentageViolation (participantIds dto) pcts"
      unfolding spec_percentageViolation_def by blast
    with that(1) show ?thesis unfolding v by auto
  qed
  have acc: "validate dto = Inr ()"
    if "percentages dto = Some pcts"
      and "items dto = None \<and> customAmounts dto = None \<and>
             (\<forall>p \<in> set (participantIds dto). p \<in> pct_participantId ` set pcts) \<and>
             (\<forall>e \<in> set pcts. pct_participantId e \<in> set (participantIds dto)) \<and>
             distinct (map pct_participantId pcts) \<and>
             (\<forall>e \<in> set pcts. 0 \<le> percentage e \<and> percentage e \<le> 100) \<and>
             \<bar>sum_list (map percentage pcts) - 100\<bar> \<le> 1 / 100 - 1 / 10 ^ 9" for pcts
  proof -
    from that(2) have "\<not> \<bar>sum_list (map percentage pcts) - 100\<bar> > 1 / 100" by simp
    with that(2) have "\<not> spec_percentageViolation (participantIds dto) pcts"
      unfolding spec_percentageViolation_def by (auto simp: not_less)
    with that show ?thesis unfolding v by simp
  qed
  from none rej acc show ?thesis by blast
qed

theorem percentage_validation_witness:
  "splitType request_percentage_short = PERCENTAGE \<and>
   validateBasicRequirements request_percentage_short = Inr () \<and>
   \<bar>sum_list (map percentage
       [\<lparr>pct_participantId = ''u1'', percentage = 60\<rparr>,
        \<lparr>pct_participantId = ''u2'', percentage = 395 / 10\<rparr>]) - 100\<bar> > 1 / 100 + 1 / 10 ^ 9 \<and>
   validate request_percentage_short \<noteq> Inr () \<and>
   splitType request_percentage_sixty_forty = PERCENTAGE \<and>
   validateBasicRequirements request_percentage_sixty_forty = Inr () \<and>
   \<bar>sum_list (map percentage
       [\<lparr>pct_participantId = ''u1'', percentage = 60\<rparr>,
        \<lparr>pct_participantId = ''u2'', percentage = 40\<rparr>]) - 100\<bar> \<le> 1 / 100 - 1 / 10 ^ 9 \<and>
   validate request_percentage_sixty_forty = Inr ()"
proof -
  let ?short = "[\<lparr>pct_participantId = ''u1'', percentage = 60\<rparr>,
                 \<lparr>pct_participantId = ''u2'', percentage = 395 / 10\<rparr>]"
  let ?even = "[\<lparr>pct_participantId = ''u1'', percentage = 60\<rparr>,
                \<lparr>pct_participantId = ''u2'', percentage = 40\<rparr>]"
  have t: "splitType request_percentage_short = PERCENTAGE"
    "splitType request_percentage_sixty_forty = PERCENTAGE"
    by (simp_all add: request_percentage_short_def request_percentage_sixty_forty_def)
  have b: "validateBasicRequirements request_percentage_short = Inr ()"
    "validateBasicRequirements request_percentage_sixty_forty = Inr ()"
    by (simp_all add: request_percentage_short_def request_percentage_sixty_forty_def
          validateBasicRequirements_def orZero_def Let_def)
  have p1: "percentages request_percentage_short = Some ?short \<and> length ?short \<le> 1000"
    by (simp add: request_percentage_short_def)
  have s1: "\<bar>sum_list (map percentage ?short) - 100\<bar> > 1 / 100 + 1 / 10 ^ 9" by simp
  have p2: "percentages request_percentage_sixty_forty = Some ?even \<and> length ?even \<le> 1000"
    by (simp add: request_percentage_sixty_forty_def)
  have s2: "items request_percentage_sixty_forty = None \<and>
            customAmounts request_percentage_sixty_forty = None \<and>
            (\<forall>p \<in> set (participantIds request_percentage_sixty_forty).
               p \<in> pct_participantId ` set ?even) \<and>
            (\<forall>e \<in> set ?even. pct_participantId e \<in> set (participantIds request_percentage_sixty_forty)) \<and>
            distinct (map pct_participantId ?even) \<and>
            (\<forall>e \<in> set ?even. 0 \<le> percentage e \<and> percentage e \<le> 100) \<and>
            \<bar>sum_list (map percentage ?even) - 100\<bar> \<le> 1 / 100 - 1 / 10 ^ 9"
    by (simp add: request_percentage_sixty_forty_def)
  from percentage_validation [OF t(1) b(1)] p1 s1
  have r1: "validate request_percentage_short \<noteq> Inr ()" by blast
  from percentage_validation [OF t(2) b(2)] p2 s2
  have r2: "validate request_percentage_sixty_forty = Inr ()" by blast
  from t b s1 r1 s2 r2 show ?thesis by blast
qed

text \<open>
  Claim C9, as stated: permuting \<open>participantIds\<close> never changes any participant's
  allocation.  It fails for the equal split of 100 among three participants: with the order
  user1, user2, user3 the rounding correction goes to user1, whose total is 33.34; with the
  order user2, user1, user3 it goes to user2, and the total of user1 is 33.33.
\<close>

theorem participant_order_counterexample:
  "mset (participantIds request_equal_three_swapped) = mset (participantIds request_equal_three) \<and>
   request_equal_three_swapped
     = request_equal_three\<lparr>participantIds := participantIds request_equal_three_swapped\<rparr> \<and>
   calculateSplit request_equal_three = Inr result_equal_three \<and>
   calculateSplit request_equal_three_swapped = Inr result_equal_three_swapped \<and>
   share_participantId (shares result_equal_three ! 0) = ''user1'' \<and>
   share_total (shares result_equal_three ! 0) = 3334 / 100 \<and>
   share_participantId (shares result_equal_three_swapped ! 1) = ''user1'' \<and>
   share_total (shares result_equal_three_swapped ! 1) = 3333 / 100"
  using calculateSplit_equal_three calculateSplit_equal_three_swapped
  by (simp add: request_equal_three_swapped_def request_equal_three_def
        result_equal_three_def result_equal_three_swapped_def)

text \<open>
  Claim C9, amended: for every request for which \<^verbatim>\<open>calculateSplit\<close> returns and every
  permutation of its \<open>participantIds\<close>, the permuted request passes validation, and whenever
  \<^verbatim>\<open>calculateSplit\<close> returns for it, \<open>grandTotal\<close> is the same and every participant is
  assigned the same subtotal, tax, tip and items.  The participant's total is the same too,
  unless the participant holds the largest total the strategy computed: the rounding
  correction goes to the first participant in list order among those.  Nothing is said of
  \<open>roundingAdjustment\<close>, which is computed from the sum of the totals in list order.
\<close>

theorem participant_order_invariance:
  assumes "mset ids' = mset (participantIds dto)" and "calculateSplit dto = Inr res"
  shows "validate (dto\<lparr>participantIds := ids'\<rparr>) = Inr () \<and>
         (\<forall>res'. calculateSplit (dto\<lparr>participantIds := ids'\<rparr>) = Inr res' \<longrightarrow>
            grandTotal res' = grandTotal res \<and>
            (\<forall>p \<in> set (participantIds dto).
               \<exists>sh \<in> set (shares res). \<exists>sh' \<in> set (shares res').
                 share_participantId sh = p \<and> share_participantId sh' = p \<and>
                 share_subtotal sh' = share_subtotal sh \<and>
                 share_tax sh' = share_tax sh \<and>
                 share_tip sh' = share_tip sh \<and>
                 share_items sh' = share_items sh \<and>
                 (share_total sh' = share_total sh \<or>
                  (\<exists>s0 \<in> set (strategyShares dto).
                     share_participantId s0 = p \<and>
                     (\<forall>s \<in> set (strategyShares dto). share_total s \<le> share_total s0)))))"
proof (intro conjI allI impI ballI)
  let ?dto' = "dto\<lparr>participantIds := ids'\<rparr>"
  let ?S = "strategyShares dto"
  let ?S' = "strategyShares ?dto'"
  note r = calculateSplit_InrD [OF assms(2)]
  have len: "length ids' = length (participantIds dto)" using assms(1) by (rule mset_eq_length)
  have st: "set ids' = set (participantIds dto)" using assms(1) by (rule mset_eq_setD)
  show v': "validate ?dto' = Inr ()" by (rule validate_reorder [OF assms(1) r(1)])
  have ne: "participantIds dto \<noteq> []" by (rule validate_basic(1) [OF r(1)])
  have ne': "participantIds ?dto' \<noteq> []" by (rule validate_basic(1) [OF v'])
  have S: "?S = map (shareOf dto) (participantIds dto)" by (rule strategyShares_map)
  have S': "?S' = map (shareOf dto) ids'" by (rule strategyShares_reorder [OF assms(1)])
  have sets: "set ?S' = set ?S" by (simp add: S S' st)
  fix res'
  assume c': "calculateSplit ?dto' = Inr res'"
  note r' = calculateSplit_InrD [OF c']
  show "grandTotal res' = grandTotal res"
    by (simp add: r(5) r'(5) expectedTotalOf_def)
  fix p
  assume p: "p \<in> set (participantIds dto)"
  then obtain i where ip: "i < length (participantIds dto)" and pi: "participantIds dto ! i = p"
    by (auto simp: in_set_conv_nth)
  from p have "p \<in> set ids'" by (simp add: st)
  then obtain j where j: "j < length ids'" and pj: "ids' ! j = p"
    by (auto simp: in_set_conv_nth)
  have i: "i < length ?S" using ip by (simp add: S)
  have j': "j < length ?S'" using j by (simp add: S')
  have Si: "?S ! i = shareOf dto p" using ip pi by (simp add: S)
  have Sj: "?S' ! j = shareOf dto p" using j pj by (simp add: S')
  have mem: "shareOf dto p \<in> set ?S" using i Si by (metis nth_mem)
  have idp: "share_participantId (shareOf dto p) = p"
    using nth_map [OF i, of share_participantId] Si pi by (simp add: strategyShares_ids)
  from reconciled_share_cases [OF ne i] obtain t where
    t: "reconciledShares dto ! i = (shareOf dto p)\<lparr>share_total := t\<rparr>"
    and tc: "t = share_total (shareOf dto p) \<or>
             roundingAdjustmentOf dto \<noteq> 0 \<and>
             (\<forall>s \<in> set ?S. share_total s \<le> share_total (shareOf dto p))"
    unfolding Si by blast
  from reconciled_share_cases [OF ne' j'] obtain t' where
    t': "reconciledShares ?dto' ! j = (shareOf dto p)\<lparr>share_total := t'\<rparr>"
    and tc': "t' = share_total (shareOf dto p) \<or>
             roundingAdjustmentOf ?dto' \<noteq> 0 \<and>
             (\<forall>s \<in> set ?S. share_total s \<le> share_total (shareOf dto p))"
    unfolding Sj sets by blast
  have in1: "reconciledShares dto ! i \<in> set (shares res)"
    unfolding r(3) using i by (simp add: reconciledShares_length)
  have in2: "reconciledShares ?dto' ! j \<in> set (shares res')"
    unfolding r'(3) using j' by (simp add: reconciledShares_length)
  have total: "t' = t \<or>
       (\<exists>s0 \<in> set ?S. share_participantId s0 = p \<and>
          (\<forall>s \<in> set ?S. share_total s \<le> share_total s0))"
  proof (cases "t' = t")
    case True
    then show ?thesis by simp
  next
    case False
    with tc tc' have "\<forall>s \<in> set ?S. share_total s \<le> share_total (shareOf dto p)" by auto
    with mem idp show ?thesis by blast
  qed
  show "\<exists>sh \<in> set (shares res). \<exists>sh' \<in> set (shares res').
          share_participantId sh = p \<and> share_participantId sh' = p \<and>
          share_subtotal sh' = share_subtotal sh \<and>
          share_tax sh' = share_tax sh \<and>
          share_tip sh' = share_tip sh \<and>
          share_items sh' = share_items sh \<and>
          (share_total sh' = share_total sh \<or>
           (\<exists>s0 \<in> set (strategyShares dto).
              share_participantId s0 = p \<and>
              (\<forall>s \<in> set (strategyShares dto). share_total s \<le> share_total s0)))"
    by (rule bexI [OF _ in1], rule bexI [OF _ in2]) (use total idp in \<open>simp add: t t'\<close>)
qed

theorem participant_order_invariance_witness:
  "mset (participantIds request_equal_three_swapped) = mset (participantIds request_equal_three) \<and>
   calculateSplit request_equal_three = Inr result_equal_three \<and>
   calculateSplit request_equal_three_swapped = Inr result_equal_three_swapped \<and>
   validate request_equal_three_swapped = Inr () \<and>
   grandTotal result_equal_three_swapped = grandTotal result_equal_three \<and>
   ''user1'' \<in> set (participantIds request_equal_three) \<and>
   (\<exists>sh \<in> set (shares result_equal_three). \<exists>sh' \<in> set (shares result_equal_three_swapped).
      share_participantId sh = ''user1'' \<and> share_participantId sh' = ''user1'' \<and>
      share_subtotal sh' = share_subtotal sh \<and> share_tax sh' = share_tax sh \<and>
      share_tip sh' = share_tip sh \<and> share_items sh' = share_items sh)"
proof -
  have m: "mset [''user2'', ''user1'', ''user3''] = mset (participantIds request_equal_three)"
    by (simp add: request_equal_three_def)
  have e: "request_equal_three\<lparr>participantIds := [''user2'', ''user1'', ''user3'']\<rparr>
             = request_equal_three_swapped"
    by (simp add: request_equal_three_swapped_def)
  have u: "''user1'' \<in> set (participantIds request_equal_three)"
    by (simp add: request_equal_three_def)
  note c = calculateSplit_equal_three
  note c' = calculateSplit_equal_three_swapped
  from participant_order_invariance [OF m c] c' u
  have "validate request_equal_three_swapped = Inr () \<and>
        grandTotal result_equal_three_swapped = grandTotal result_equal_three \<and>
        (\<exists>sh \<in> set (shares result_equal_three). \<exists>sh' \<in> set (shares result_equal_three_swapped).
           share_participantId sh = ''user1'' \<and> share_participantId sh' = ''user1'' \<and>
           share_subtotal sh' = share_subtotal sh \<and> share_tax sh' = share_tax sh \<and>
           share_tip sh' = share_tip sh \<and> share_items sh' = share_items sh)"
    unfolding e by blast
  with m c c' u show ?thesis
    by (simp add: request_equal_three_swapped_def)
qed

end
